theory Spec2Isabelle
  imports Main
begin

section \<open>JavaScript strings\<close>

text \<open>
  A JavaScript string is a finite sequence of UTF-16 code units. A code unit is modelled
  by its number, so that the characters above Latin-1 that the sources use (the end marker
  with U+0153 and U+2026) can be written. String literals of the sources are written
  \<open>js ''...''\<close>.
\<close>

type_synonym jsstring = "nat list"

definition js :: "string \<Rightarrow> jsstring" where
  "js s = map of_char s"

text \<open>
  \<open>String.prototype.trim\<close> removes WhiteSpace and LineTerminator code units from both
  ends: TAB, LF, VT, FF, CR, SP, NBSP, U+1680, U+2000 to U+200A, U+2028, U+2029, U+202F,
  U+205F, U+3000 and U+FEFF.
\<close>

definition isWhiteSpace :: "nat \<Rightarrow> bool" where
  "isWhiteSpace c =
     (c = 0x09 \<or> c = 0x0A \<or> c = 0x0B \<or> c = 0x0C \<or> c = 0x0D \<or> c = 0x20 \<or> c = 0xA0
      \<or> c = 0x1680 \<or> (0x2000 \<le> c \<and> c \<le> 0x200A) \<or> c = 0x2028 \<or> c = 0x2029
      \<or> c = 0x202F \<or> c = 0x205F \<or> c = 0x3000 \<or> c = 0xFEFF)"

definition trim :: "jsstring \<Rightarrow> jsstring" where
  "trim s = rev (dropWhile isWhiteSpace (rev (dropWhile isWhiteSpace s)))"

text \<open>\<open>s.split(sep)\<close> for a separator of one code unit: never the empty list.\<close>

fun splitOn :: "nat \<Rightarrow> jsstring \<Rightarrow> jsstring list" where
  "splitOn sep [] = [[]]"
| "splitOn sep (c # cs) =
     (if c = sep then [] # splitOn sep cs
      else (case splitOn sep cs of
              [] \<Rightarrow> [[c]]
            | l # ls \<Rightarrow> (c # l) # ls))"

text \<open>\<open>xs.join(sep)\<close>.\<close>

fun join :: "jsstring \<Rightarrow> jsstring list \<Rightarrow> jsstring" where
  "join sep [] = []"
| "join sep [x] = x"
| "join sep (x # y # ys) = x @ sep @ join sep (y # ys)"

text \<open>\<open>s.startsWith(t)\<close> and \<open>s.includes(t)\<close> (here \<open>includesStr\<close>): exact, case-sensitive.\<close>

definition startsWith :: "jsstring \<Rightarrow> jsstring \<Rightarrow> bool" where
  "startsWith s t = (take (length t) s = t)"

fun includesStr :: "jsstring \<Rightarrow> jsstring \<Rightarrow> bool" where
  "includesStr [] t = (t = [])"
| "includesStr (c # cs) t = (startsWith (c # cs) t \<or> includesStr cs t)"

text \<open>
  \<open>xs.findIndex(P)\<close>: the index of the first element that satisfies \<open>P\<close>, or -1.
\<close>

fun findIndex :: "('a \<Rightarrow> bool) \<Rightarrow> 'a list \<Rightarrow> int" where
  "findIndex P [] = -1"
| "findIndex P (x # xs) =
     (if P x then 0
      else (let k = findIndex P xs in if k = -1 then -1 else k + 1))"

subsection \<open>The regular expressions of the sources\<close>

text \<open>
  Every pattern of \<open>extractData\<close> has the shape \<open>/^(a1|a2|...)suffix/i\<close> with literal
  ASCII alternatives. Under the \<open>i\<close> flag (without \<open>u\<close>) two code units match when
  their canonical forms are equal; a code unit of 128 or more is never canonicalised to an
  ASCII one, so against an ASCII pattern character only ASCII case folding matters.
\<close>

definition canonicalize :: "nat \<Rightarrow> nat" where
  "canonicalize c = (if 97 \<le> c \<and> c \<le> 122 then c - 32 else c)"

fun matchesAtStart :: "jsstring \<Rightarrow> jsstring \<Rightarrow> bool" where
  "matchesAtStart [] s = True"
| "matchesAtStart (p # ps) [] = False"
| "matchesAtStart (p # ps) (c # cs) =
     (canonicalize p = canonicalize c \<and> matchesAtStart ps cs)"

text \<open>
  The length of the match of \<open>/^(a1|a2|...)suffix/i\<close>: alternatives are tried in order,
  and the first one after which the suffix matches too is taken.
\<close>

fun reMatch :: "jsstring list \<Rightarrow> jsstring \<Rightarrow> jsstring \<Rightarrow> nat option" where
  "reMatch [] suffix s = None"
| "reMatch (a # alts) suffix s =
     (if matchesAtStart (a @ suffix) s then Some (length (a @ suffix))
      else reMatch alts suffix s)"

text \<open>\<open>re.test(s)\<close> and \<open>s.replace(re, '')\<close> for such a pattern.\<close>

definition reTest :: "jsstring list \<Rightarrow> jsstring \<Rightarrow> jsstring \<Rightarrow> bool" where
  "reTest alts suffix s = (reMatch alts suffix s \<noteq> None)"

definition reRemove :: "jsstring list \<Rightarrow> jsstring \<Rightarrow> jsstring \<Rightarrow> jsstring" where
  "reRemove alts suffix s =
     (case reMatch alts suffix s of None \<Rightarrow> s | Some n \<Rightarrow> drop n s)"

section \<open>extractData (src/services/docProcessor.js)\<close>

definition seoMarkers :: "jsstring list" where
  "seoMarkers = map js [''SEO & Meta Details'', ''Blog Post:'', ''Meta Data'',
     ''1. Meta Data'', ''Meta Title:'', ''Slug:'', ''URL Slug:'']"

definition bylinePattern :: "jsstring list" where
  "bylinePattern = [js ''By Dr.'']"

definition slugPattern :: "jsstring list" where
  "slugPattern = map js [''Slug'', ''Slugx'', ''URL Slug'', ''Suggested URL Slug'']"

definition metaTitlePattern :: "jsstring list" where
  "metaTitlePattern = map js [''Meta Title'', ''Optimized Meta Title'']"

definition metaDescriptionPattern :: "jsstring list" where
  "metaDescriptionPattern = map js [''Meta Description'', ''Compelling Meta Description'']"

definition keywordsPattern :: "jsstring list" where
  "keywordsPattern = [js ''Primary Keywords'']"

text \<open>
  The \<open>metadata\<close> object: a field that was never assigned is \<open>None\<close> (the field
  \<open>keywords\<close> is \<open>keywordsMeta\<close> here). The state of the
  two loops adds their local variables.
\<close>

record metadata =
  title :: "jsstring option"
  author :: "jsstring option"
  slug :: "jsstring option"
  metaTitle :: "jsstring option"
  metaDescription :: "jsstring option"
  keywordsMeta :: "jsstring option"

record state = metadata +
  titleFound :: bool
  contentLines :: "jsstring list"
  descriptionLines :: "jsstring list"
  isParsingDescription :: bool

definition initial :: state where
  "initial = \<lparr>title = None, author = None, slug = None, metaTitle = None,
     metaDescription = None, keywordsMeta = None, titleFound = False, contentLines = [],
     descriptionLines = [], isParsingDescription = False\<rparr>"

definition nonBlankLines :: "jsstring \<Rightarrow> jsstring list" where
  "nonBlankLines rawText = filter (\<lambda>line. trim line \<noteq> []) (splitOn 10 rawText)"

text \<open>The body of the first loop (title, author and the content before the SEO block).\<close>

definition topStep :: "state \<Rightarrow> jsstring \<Rightarrow> state" where
  "topStep st l =
     (let line = trim l in
      if reTest bylinePattern [] line then st\<lparr>author := Some line\<rparr>
      else if \<not> titleFound st \<and> length line > 20
                \<and> \<not> includesStr line (js ''Medically reviewed'')
        then st\<lparr>title := Some line, titleFound := True\<rparr>
      else if titleFound st then st\<lparr>contentLines := contentLines st @ [l]\<rparr>
      else st)"

text \<open>The body of \<open>seoLines.forEach\<close>.\<close>

definition seoStep :: "state \<Rightarrow> jsstring \<Rightarrow> state" where
  "seoStep st l =
     (let trimmedLine = trim l in
      if reTest slugPattern (js '':'') trimmedLine
        then st\<lparr>isParsingDescription := False,
                slug := Some (trim (reRemove slugPattern (js '':'') trimmedLine))\<rparr>
      else if reTest metaTitlePattern (js '':'') trimmedLine
        then st\<lparr>isParsingDescription := False,
                metaTitle := Some (trim (reRemove metaTitlePattern (js '':'') trimmedLine))\<rparr>
      else if reTest metaDescriptionPattern (js '':'') trimmedLine
        then st\<lparr>isParsingDescription := True,
                descriptionLines := descriptionLines st @
                  [trim (reRemove metaDescriptionPattern (js '':'') trimmedLine)]\<rparr>
      else if reTest keywordsPattern (js '':'') trimmedLine
        then st\<lparr>isParsingDescription := False,
                keywordsMeta := Some (trim (reRemove keywordsPattern (js '':'') trimmedLine))\<rparr>
      else if isParsingDescription st
        then st\<lparr>descriptionLines := descriptionLines st @ [trimmedLine]\<rparr>
      else st)"

text \<open>
  Steps 1 and 2 of \<open>extractData\<close>: the state when the final validation starts.
\<close>

definition classify :: "jsstring \<Rightarrow> state" where
  "classify rawText =
     (let lines = nonBlankLines rawText;
          seoBlockStartIndex = findIndex (reTest seoMarkers []) lines;
          st1 = foldl topStep initial
                  (take (if seoBlockStartIndex = -1 then length lines
                         else nat seoBlockStartIndex) lines)
      in if seoBlockStartIndex \<noteq> -1
         then (let seoLines = drop (nat seoBlockStartIndex) lines;
                   st2 = foldl seoStep st1 seoLines
               in if length (descriptionLines st2) > 0
                  then st2\<lparr>metaDescription :=
                         Some (trim (join (js '' '') (descriptionLines st2)))\<rparr>
                  else st2)
         else st1)"

text \<open>
  \<open>throw new Error(message)\<close> is the value \<open>Inl (Error message)\<close>. \<open>!v\<close> on a field
  that is undefined or a string holds when it is undefined or empty.
\<close>

datatype error = Error jsstring

definition falsy :: "jsstring option \<Rightarrow> bool" where
  "falsy v = (v = None \<or> v = Some [])"

definition extractData :: "jsstring \<Rightarrow> jsstring \<Rightarrow> error + (metadata \<times> jsstring)" where
  "extractData rawText filePath =
     (let st = classify rawText in
      if falsy (title st)
        then Inl (Error (js ''Title could not be determined for file: '' @ filePath))
      else if falsy (slug st)
        then Inl (Error (js ''Slug could not be found for file: '' @ filePath))
      else if falsy (metaTitle st)
        then Inl (Error (js ''Meta Title could not be found for file: '' @ filePath))
      else Inr (metadata.truncate st, join [10] (contentLines st)))"

subsection \<open>The words of the specification about extractData\<close>

text \<open>
  The SEO block starts at the first non-blank line that matches the block-start markers
  (tested on the line as it is, not trimmed); the lines before it are the region of
  title, byline and content.
\<close>

definition isSeoStart :: "jsstring \<Rightarrow> bool" where
  "isSeoStart l = reTest seoMarkers [] l"

definition preSeoLines :: "jsstring \<Rightarrow> jsstring list" where
  "preSeoLines rawText = takeWhile (\<lambda>l. \<not> isSeoStart l) (nonBlankLines rawText)"

definition seoBlock :: "jsstring \<Rightarrow> jsstring list" where
  "seoBlock rawText = dropWhile (\<lambda>l. \<not> isSeoStart l) (nonBlankLines rawText)"

text \<open>A byline: the trimmed line matches \<open>/^By Dr\./i\<close>.\<close>

definition isByline :: "jsstring \<Rightarrow> bool" where
  "isByline l = reTest bylinePattern [] (trim l)"

text \<open>
  A line that can be the title: trimmed length over 20, not a byline, and without the
  substring "Medically reviewed".
\<close>

definition isTitleCandidate :: "jsstring \<Rightarrow> bool" where
  "isTitleCandidate l = (length (trim l) > 20 \<and> \<not> isByline l
      \<and> \<not> includesStr (trim l) (js ''Medically reviewed''))"

text \<open>
  The lines of the SEO block by the field pattern that the trimmed line matches, and the
  value of a field line: the label is removed and the rest is trimmed.
\<close>

definition isSlugLine :: "jsstring \<Rightarrow> bool" where
  "isSlugLine l = reTest slugPattern (js '':'') (trim l)"

definition isMetaTitleLine :: "jsstring \<Rightarrow> bool" where
  "isMetaTitleLine l = reTest metaTitlePattern (js '':'') (trim l)"

definition isMetaDescriptionLine :: "jsstring \<Rightarrow> bool" where
  "isMetaDescriptionLine l = reTest metaDescriptionPattern (js '':'') (trim l)"

definition isKeywordsLine :: "jsstring \<Rightarrow> bool" where
  "isKeywordsLine l = reTest keywordsPattern (js '':'') (trim l)"

definition isFieldLine :: "jsstring \<Rightarrow> bool" where
  "isFieldLine l = (isSlugLine l \<or> isMetaTitleLine l \<or> isMetaDescriptionLine l \<or> isKeywordsLine l)"

definition fieldValue :: "jsstring list \<Rightarrow> jsstring \<Rightarrow> jsstring" where
  "fieldValue pattern l = trim (reRemove pattern (js '':'') (trim l))"

text \<open>The three messages of the final validation.\<close>

definition titleMessage :: "jsstring \<Rightarrow> jsstring" where
  "titleMessage filePath = js ''Title could not be determined for file: '' @ filePath"

definition slugMessage :: "jsstring \<Rightarrow> jsstring" where
  "slugMessage filePath = js ''Slug could not be found for file: '' @ filePath"

definition metaTitleMessage :: "jsstring \<Rightarrow> jsstring" where
  "metaTitleMessage filePath = js ''Meta Title could not be found for file: '' @ filePath"

subsection \<open>Sample documents\<close>

definition docA :: jsstring where
  "docA = js ''Draft v2\<newline>How to Get a Medical Certificate Online\<newline>By Dr. Alice Smith\<newline>By Dr. Bob Jones\<newline>Body paragraph.\<newline>Slug: medical-certificate\<newline>Meta Title: Certificates Online''"

definition docB :: jsstring where
  "docB = js ''Notes\<newline>By Dr. Alice Smith''"

definition docC :: jsstring where
  "docC = js ''How to Get a Medical Certificate Online\<newline>Body paragraph.''"

definition docD :: jsstring where
  "docD = js ''How to Get a Medical Certificate Online\<newline>Slug: medical-certificate\<newline>Meta Title: Certificates Online\<newline>Meta Description: Part one.\<newline>continued sentence.\<newline>Primary Keywords: a, b''"

definition docE :: jsstring where
  "docE = js ''How to Get a Medical Certificate Online\<newline>Slug: first-slug\<newline>Meta Title: First\<newline>Meta Description: A\<newline>Slug: second-slug\<newline>Meta Title: Second\<newline>Meta Description: B\<newline>Primary Keywords: k1\<newline>Primary Keywords: k2''"

definition docF :: jsstring where
  "docF = js ''How to Get a Medical Certificate Online\<newline>Meta Title: Certificates Online''"

definition docG :: jsstring where
  "docG = js ''How to Get a Medical Certificate Online\<newline>Slug: medical-certificate''"

definition docH :: jsstring where
  "docH = js ''How to Get a Medical Certificate Online\<newline>Slug: medical-certificate\<newline>Meta Title: Certificates Online''"

section \<open>The HTML body (unnamed/part_000, processDocxFile)\<close>

text \<open>
  \<open>s.indexOf(t, from)\<close>: the first position at or after \<open>from\<close> where \<open>t\<close> occurs,
  or -1. \<open>s.lastIndexOf(t, from)\<close>: the last position at or before \<open>from\<close> where
  \<open>t\<close> occurs, or -1; without \<open>from\<close> the search starts at the end of \<open>s\<close>.
\<close>

definition indexOf :: "jsstring \<Rightarrow> jsstring \<Rightarrow> int \<Rightarrow> int" where
  "indexOf s t from =
     (case filter (\<lambda>i. startsWith (drop i s) t) [min (nat from) (length s)..<Suc (length s)] of
        [] \<Rightarrow> - 1
      | i # _ \<Rightarrow> int i)"

definition lastIndexOf :: "jsstring \<Rightarrow> jsstring \<Rightarrow> int \<Rightarrow> int" where
  "lastIndexOf s t from =
     (case filter (\<lambda>i. startsWith (drop i s) t)
             (rev [0..<Suc (min (nat from) (length s - length t))]) of
        [] \<Rightarrow> - 1
      | i # _ \<Rightarrow> int i)"

definition lastIndexOfAll :: "jsstring \<Rightarrow> jsstring \<Rightarrow> int" where
  "lastIndexOfAll s t = lastIndexOf s t (int (length s))"

text \<open>
  \<open>s.substring(a, b)\<close>: both ends are clamped to the string, and swapped when the first
  is the larger one.
\<close>

definition substring :: "jsstring \<Rightarrow> int \<Rightarrow> int \<Rightarrow> jsstring" where
  "substring s a b =
     (let a' = min (nat a) (length s); b' = min (nat b) (length s)
      in take (max a' b' - min a' b') (drop (min a' b') s))"

definition endMarkers :: "jsstring list" where
  "endMarkers =
     [js ''Always consult your healthcare provider for personal medical concerns.'',
      js ''Okay, I have the full, updated blog post content.'',
      js ''[Discover All Medicly Telehealth Services Here!]'',
      [0xE2, 0x153, 0x2026] @ js '' SEO & Meta Data for:'',
      js ''Blog Post: How to Quickly Obtain an Online Medical Certificate'',
      js ''Meta Title:'']"

text \<open>
  The start of the content: after the closing tag that follows the title, or the
  position of the title when no closing tag follows. A title that does not occur is the
  first thrown error.
\<close>

definition contentStart :: "jsstring \<Rightarrow> jsstring \<Rightarrow> error + int" where
  "contentStart html title' =
     (let contentStartIndex = indexOf html title' 0 in
      if contentStartIndex \<noteq> - 1
      then (let closingTagIndex =
                  indexOf html (js ''</'') (contentStartIndex + int (length title')) in
            if closingTagIndex \<noteq> - 1
            then (let endOfClosingTag = indexOf html (js ''>'') closingTagIndex in
                  if endOfClosingTag \<noteq> - 1 then Inr (endOfClosingTag + 1)
                  else Inr contentStartIndex)
            else Inr contentStartIndex)
      else Inl (Error (js ''Could not find the start of the content after the title.'')))"

text \<open>The loop over the end markers; \<open>content\<close> stays empty when no marker fits.\<close>

fun markerLoop :: "jsstring \<Rightarrow> int \<Rightarrow> jsstring list \<Rightarrow> jsstring" where
  "markerLoop html contentStartIndex [] = []"
| "markerLoop html contentStartIndex (marker # markers) =
     (let contentEndIndex = lastIndexOfAll html marker in
      if contentEndIndex > contentStartIndex
      then (let openingTagIndex = lastIndexOf html (js ''<'') contentEndIndex in
            if openingTagIndex \<noteq> - 1
            then trim (substring html contentStartIndex openingTagIndex)
            else markerLoop html contentStartIndex markers)
      else markerLoop html contentStartIndex markers)"

text \<open>
  The specification's \<open>resolveBody\<close>: the statements of \<open>processDocxFile\<close> between the
  rendering and the post-processing, as a function of the rendered HTML and the title.
\<close>

definition resolveBody :: "jsstring \<Rightarrow> jsstring \<Rightarrow> error + jsstring" where
  "resolveBody html title' =
     (case contentStart html title' of
        Inl e \<Rightarrow> Inl e
      | Inr contentStartIndex \<Rightarrow>
          (let content = markerLoop html contentStartIndex endMarkers in
           if content = []
           then (let seoBlockHtmlStart = indexOf html (js ''Meta Title:'') 0;
                     content' =
                       (if seoBlockHtmlStart > contentStartIndex
                        then (let openingTagIndex =
                                    lastIndexOf html (js ''<'') seoBlockHtmlStart in
                              if openingTagIndex \<noteq> - 1
                              then trim (substring html contentStartIndex openingTagIndex)
                              else content)
                        else content)
                 in if content' = []
                    then Inl (Error (js
                      ''Could not determine content boundaries. No known end pattern matched.''))
                    else Inr content')
           else Inr content))"

text \<open>The title occurs in the HTML as a literal substring.\<close>

definition occursIn :: "jsstring \<Rightarrow> jsstring \<Rightarrow> bool" where
  "occursIn t s = (\<exists>pre post. s = pre @ t @ post)"

definition html1 :: jsstring where
  "html1 = js ''<h1>My Title</h1><p>Body text.</p><p>Meta Title: X</p>''"

definition html2 :: jsstring where
  "html2 = js ''<h1>Another Heading</h1><p>Body text.</p>''"

section \<open>The markup post-processor\<close>

text \<open>
  The link pattern is \<open>(?<!<a[^>]*>)phrase(?!</a>)\<close> with the flags \<open>gi\<close>. The
  lookbehind holds at a position when the text before it ends with \<open><a\<close>, then any
  code units other than the closing angle bracket, then a closing angle bracket;
  \<open>before\<close> is that text, last code unit first. The code units 60 and 62 are the
  angle brackets, 65 is the canonical form of \<open>a\<close>.
\<close>

fun hasOpenA :: "jsstring \<Rightarrow> bool" where
  "hasOpenA (x # y # r) = ((canonicalize x = 65 \<and> y = 60) \<or> hasOpenA (y # r))"
| "hasOpenA r = False"

definition lookbehindA :: "jsstring \<Rightarrow> bool" where
  "lookbehindA before =
     (case before of
        [] \<Rightarrow> False
      | c # r \<Rightarrow> c = 62 \<and> hasOpenA (takeWhile (\<lambda>x. x \<noteq> 62) r))"

definition linkMatch :: "jsstring \<Rightarrow> jsstring \<Rightarrow> jsstring \<Rightarrow> bool" where
  "linkMatch phrase before s =
     (phrase \<noteq> [] \<and> matchesAtStart phrase s \<and> \<not> lookbehindA before
      \<and> \<not> matchesAtStart (js ''</a>'') (drop (length phrase) s))"

text \<open>
  \<open>s.replace(regex, replacement)\<close> for the link pattern of a (non-empty) phrase: the
  matches are found from left to right in \<open>s\<close> itself, each is replaced by
  \<open>replacement\<close> applied to the matched text, and the search goes on after the match.
\<close>

function replaceLinks ::
  "jsstring \<Rightarrow> (jsstring \<Rightarrow> jsstring) \<Rightarrow> jsstring \<Rightarrow> jsstring \<Rightarrow> jsstring" where
  "replaceLinks phrase replacement before [] = []"
| "replaceLinks phrase replacement before (c # cs) =
     (if linkMatch phrase before (c # cs)
      then replacement (take (length phrase) (c # cs))
           @ replaceLinks phrase replacement
               (rev (take (length phrase) (c # cs)) @ before)
               (drop (length phrase) (c # cs))
      else c # replaceLinks phrase replacement (c # before) cs)"
  by pat_completeness auto
termination
  by (relation "measure (\<lambda>(phrase, replacement, before, s). length s)")
    (auto simp: linkMatch_def)

text \<open>
  The call-to-action pattern is \<open>(prefix[^"]*")>\<close> with the flag \<open>g\<close>, where the prefix
  is a sequence of literal code units and of dots (any code unit but a line terminator).
  The match is replaced by its group followed by \<open> class="blog_cta">\<close>. The code
  unit 34 is the double quote.
\<close>

datatype patItem = Lit nat | Dot

fun matchItems :: "patItem list \<Rightarrow> jsstring \<Rightarrow> jsstring option" where
  "matchItems [] s = Some s"
| "matchItems (p # ps) [] = None"
| "matchItems (Lit x # ps) (c # cs) = (if c = x then matchItems ps cs else None)"
| "matchItems (Dot # ps) (c # cs) =
     (if c = 0x0A \<or> c = 0x0D \<or> c = 0x2028 \<or> c = 0x2029 then None else matchItems ps cs)"

definition ctaMatch :: "patItem list \<Rightarrow> jsstring \<Rightarrow> nat option" where
  \<open>ctaMatch prefix s =
     (case matchItems prefix s of
        None \<Rightarrow> None
      | Some rest \<Rightarrow>
          (let value = takeWhile (\<lambda>c. c \<noteq> 34) rest in
           if startsWith (drop (length value) rest) (js ''">'')
           then Some (length prefix + length value + 1)
           else None))\<close>

function replaceCta :: "patItem list \<Rightarrow> jsstring \<Rightarrow> jsstring" where
  \<open>replaceCta prefix [] = []\<close>
| \<open>replaceCta prefix (c # cs) =
     (case ctaMatch prefix (c # cs) of
        Some n \<Rightarrow> take n (c # cs) @ js '' class="blog_cta">''
                    @ replaceCta prefix (drop (Suc n) (c # cs))
      | None \<Rightarrow> c # replaceCta prefix cs)\<close>
  by pat_completeness auto
termination
  by (relation "measure (\<lambda>(prefix, s). length s)") auto

subsection \<open>generateAndProcessHtml (src/services/docProcessor.js)\<close>

text \<open>
  The part of \<open>generateAndProcessHtml\<close> after the rendering. A rule is a list of phrases
  and a URL; the replacement is the anchor with the phrase as configured.
\<close>

definition anchor :: "jsstring \<Rightarrow> jsstring \<Rightarrow> jsstring" where
  \<open>anchor url text' = js ''<a href="'' @ url @ js ''">'' @ text' @ js ''</a>''\<close>

definition internalLinks :: "(jsstring list \<times> jsstring) list" where
  "internalLinks =
     [([js ''online prescription'', js ''online prescriptions''],
       js ''https://medicly.com.au/prescriptions''),
      ([js ''doctor consultation'', js ''online doctor consultation''],
       js ''https://medicly.com.au/doctor-consultation''),
      ([js ''certificates''], js ''https://medicly.com.au/certificates'')]"

definition wrapPhrases :: "(jsstring list \<times> jsstring) list \<Rightarrow> jsstring \<Rightarrow> jsstring" where
  "wrapPhrases rules html =
     foldl (\<lambda>processedHtml (phrases, url).
              foldl (\<lambda>processedHtml phrase.
                       replaceLinks phrase (\<lambda>m. anchor url phrase) [] processedHtml)
                processedHtml phrases)
       html rules"

definition ctaPrefix :: "patItem list" where
  \<open>ctaPrefix = map Lit (js ''<a href="https://medicly'') @ [Dot]
     @ map Lit (js ''com'') @ [Dot] @ map Lit (js ''au/'')\<close>

definition postProcess :: "(jsstring list \<times> jsstring) list \<Rightarrow> jsstring \<Rightarrow> jsstring" where
  "postProcess rules html = replaceCta ctaPrefix (wrapPhrases rules html)"

subsection \<open>postProcessHtml (unnamed/part_000)\<close>

text \<open>
  The older post-processor: one pattern per rule, the matched text kept in the anchor
  (\<open>$1\<close>), and the class added to anchors that open a strong paragraph.
\<close>

definition internalLinksHtml :: "(jsstring \<times> jsstring) list" where
  "internalLinksHtml =
     [(js ''online prescription'', js ''https://medicly.com.au/prescriptions''),
      (js ''doctor consultation'', js ''https://medicly.com.au/doctor-consultation''),
      (js ''online doctor consultation'', js ''https://medicly.com.au/doctor-consultation''),
      (js ''certificates'', js ''https://medicly.com.au/certificates'')]"

definition ctaPrefixHtml :: "patItem list" where
  \<open>ctaPrefixHtml = map Lit (js ''<p><strong><a href="'')\<close>

definition postProcessHtml :: "jsstring \<Rightarrow> jsstring" where
  "postProcessHtml html =
     replaceCta ctaPrefixHtml
       (foldl (\<lambda>processedHtml (text', url).
                 replaceLinks text' (\<lambda>m. anchor url m) [] processedHtml)
          html internalLinksHtml)"

definition htmlC :: jsstring where
  "htmlC = js ''<p>certificates</p>''"

definition htmlC1 :: jsstring where
  \<open>htmlC1 = js ''<p><a href="https://medicly.com.au/certificates" class="blog_cta">certificates</a></p>''\<close>

definition htmlC2 :: jsstring where
  \<open>htmlC2 = js ''<p><a href="https://medicly.com.au/<a href="https://medicly.com.au/certificates" class="blog_cta">certificates</a>" class="blog_cta">certificates</a></p>''\<close>

definition htmlH1 :: jsstring where
  \<open>htmlH1 = js ''<p><a href="https://medicly.com.au/certificates">certificates</a></p>''\<close>

definition htmlH2 :: jsstring where
  \<open>htmlH2 = js ''<p><a href="https://medicly.com.au/<a href="https://medicly.com.au/certificates">certificates</a>">certificates</a></p>''\<close>

section \<open>Persistence and the orchestrator (src/services/database.js, process-docs.js)\<close>

text \<open>
  What \<open>processDocxFile\<close> returns: the metadata and the processed content. A row of the
  table \<open>blogs\<close> is its identifier and the inserted values.
\<close>

record postData = metadata +
  content :: jsstring

record database =
  blogs :: "(nat \<times> postData) list"
  nextId :: nat

text \<open>
  Modelled from the spec: the table \<open>blogs\<close> is declared in setup.sql, which is not among
  the sources; its slug is unique (the key of \<open>ON CONFLICT (slug)\<close>) and its identifiers
  are fresh. The statement \<open>INSERT ... ON CONFLICT (slug) DO NOTHING RETURNING id, slug\<close>
  inserts the row and returns its identifier and slug, or, when a row with this slug
  exists, changes nothing and returns no row.
\<close>

definition insertQuery :: "database \<Rightarrow> postData \<Rightarrow> database \<times> (nat \<times> jsstring option) list" where
  "insertQuery d p =
     (if slug p \<noteq> None \<and> list_ex (\<lambda>(i, q). slug q = slug p) (blogs d) then (d, [])
      else (d\<lparr>blogs := blogs d @ [(nextId d, p)], nextId := nextId d + 1\<rparr>,
            [(nextId d, slug p)]))"

text \<open>\<open>insertPost\<close> returns \<open>res.rows[0]\<close>: \<open>None\<close> is JavaScript's undefined.\<close>

definition insertPost :: "database \<Rightarrow> postData \<Rightarrow> database \<times> (nat \<times> jsstring option) option" where
  "insertPost d p =
     (let (d', rows) = insertQuery d p
      in (d', case rows of [] \<Rightarrow> None | r # _ \<Rightarrow> Some r))"

text \<open>
  The state that the loop of \<open>main\<close> changes: the database, the files of the inbound
  directory \<open>./doc\<close> and of \<open>./sent\<close>, and what was printed or logged.
\<close>

datatype event =
    Processing jsstring
  | Success "jsstring option" nat
  | Moved jsstring
  | Skipped "jsstring option"
  | ErrorLogged jsstring jsstring

record world =
  db :: database
  docFiles :: "jsstring list"
  sentFiles :: "jsstring list"
  events :: "event list"

text \<open>
  The body of the loop over the documents; \<open>processDocxFile\<close> is the extraction of the
  file of this name. An error that it throws is caught and logged. The query and the
  renaming of the file are taken to succeed.
\<close>

definition processFile :: "(jsstring \<Rightarrow> error + postData) \<Rightarrow> world \<Rightarrow> jsstring \<Rightarrow> world" where
  "processFile processDocxFile w file =
     (let w0 = w\<lparr>events := events w @ [Processing file]\<rparr> in
      case processDocxFile file of
        Inl (Error message) \<Rightarrow> w0\<lparr>events := events w0 @ [ErrorLogged file message]\<rparr>
      | Inr p \<Rightarrow>
          (let (d', result) = insertPost (db w0) p in
           case result of
             Some (ident, s) \<Rightarrow>
               w0\<lparr>db := d',
                  docFiles := removeAll file (docFiles w0),
                  sentFiles := sentFiles w0 @ [file],
                  events := events w0 @ [Success (slug p) ident, Moved file]\<rparr>
           | None \<Rightarrow> w0\<lparr>db := d', events := events w0 @ [Skipped (slug p)]\<rparr>))"

definition mainLoop ::
  "(jsstring \<Rightarrow> error + postData) \<Rightarrow> world \<Rightarrow> jsstring list \<Rightarrow> world" where
  "mainLoop processDocxFile w docxFiles = foldl (processFile processDocxFile) w docxFiles"

definition postA :: postData where
  "postA = \<lparr>title = Some (js ''How to Get a Medical Certificate Online''), author = None,
     slug = Some (js ''medical-certificate''), metaTitle = Some (js ''Certificates Online''),
     metaDescription = None, keywordsMeta = None, content = js ''<p>Body text.</p>''\<rparr>"

definition postB :: postData where
  "postB = \<lparr>title = Some (js ''Online Prescriptions in Five Minutes''), author = None,
     slug = Some (js ''online-prescriptions''), metaTitle = Some (js ''Prescriptions Online''),
     metaDescription = None, keywordsMeta = None, content = js ''<p>Other text.</p>''\<rparr>"

definition processAB :: "jsstring \<Rightarrow> error + postData" where
  "processAB file = (if file = js ''a.docx'' then Inr postA else Inr postB)"

definition worldA :: world where
  "worldA = \<lparr>db = \<lparr>blogs = [(1, postA)], nextId = 2\<rparr>,
     docFiles = [js ''a.docx'', js ''b.docx''], sentFiles = [], events = []\<rparr>"

section \<open>Proofs\<close>

subsection \<open>Evaluation and the two loops\<close>

lemma findIndex_ge: "- 1 \<le> findIndex P xs"
  by (induction xs) (auto simp: Let_def)

lemma findIndex_none: "(findIndex P xs = - 1) = (\<not> (\<exists>x\<in>set xs. P x))"
proof (induction xs)
  case Nil
  show ?case by simp
next
  case (Cons x xs)
  have "- 1 \<le> findIndex P xs" by (rule findIndex_ge)
  with Cons show ?case by (auto simp: Let_def)
qed

lemma findIndex_take:
  "findIndex P xs \<noteq> - 1 \<Longrightarrow> take (nat (findIndex P xs)) xs = takeWhile (\<lambda>x. \<not> P x) xs"
proof (induction xs)
  case Nil
  then show ?case by simp
next
  case (Cons x xs)
  show ?case
  proof (cases "P x")
    case True
    then show ?thesis by simp
  next
    case False
    with Cons.prems have ne: "findIndex P xs \<noteq> - 1" by (auto simp: Let_def)
    moreover have "- 1 \<le> findIndex P xs" by (rule findIndex_ge)
    ultimately have "0 \<le> findIndex P xs" by linarith
    then have "nat (findIndex P xs + 1) = Suc (nat (findIndex P xs))" by simp
    with False ne Cons.IH show ?thesis by (simp add: Let_def)
  qed
qed

lemma findIndex_drop:
  "findIndex P xs \<noteq> - 1 \<Longrightarrow> drop (nat (findIndex P xs)) xs = dropWhile (\<lambda>x. \<not> P x) xs"
proof (induction xs)
  case Nil
  then show ?case by simp
next
  case (Cons x xs)
  show ?case
  proof (cases "P x")
    case True
    then show ?thesis by simp
  next
    case False
    with Cons.prems have ne: "findIndex P xs \<noteq> - 1" by (auto simp: Let_def)
    moreover have "- 1 \<le> findIndex P xs" by (rule findIndex_ge)
    ultimately have "0 \<le> findIndex P xs" by linarith
    then have "nat (findIndex P xs + 1) = Suc (nat (findIndex P xs))" by simp
    with False ne Cons.IH show ?thesis by (simp add: Let_def)
  qed
qed

lemma classify_eq:
  "classify rawText =
     (let st1 = foldl topStep initial (preSeoLines rawText);
          st2 = foldl seoStep st1 (seoBlock rawText)
      in if seoBlock rawText = [] then st1
         else if descriptionLines st2 = [] then st2
         else st2\<lparr>metaDescription := Some (trim (join (js '' '') (descriptionLines st2)))\<rparr>)"
proof (cases "findIndex (reTest seoMarkers []) (nonBlankLines rawText) = - 1")
  case True
  then have "\<not> (\<exists>x\<in>set (nonBlankLines rawText). reTest seoMarkers [] x)"
    by (simp add: findIndex_none)
  then have "preSeoLines rawText = nonBlankLines rawText" "seoBlock rawText = []"
    by (auto simp: preSeoLines_def seoBlock_def isSeoStart_def)
  with True show ?thesis by (simp add: classify_def Let_def)
next
  case False
  then have ex: "\<exists>x\<in>set (nonBlankLines rawText). reTest seoMarkers [] x"
    by (simp add: findIndex_none)
  then have ne: "seoBlock rawText \<noteq> []"
    by (auto simp: seoBlock_def isSeoStart_def)
  from False show ?thesis
    using findIndex_take [OF False] findIndex_drop [OF False] ne ex
    by (auto simp: classify_def Let_def preSeoLines_def seoBlock_def isSeoStart_def)
qed

lemma topStep_title:
  "title (topStep st l) =
     (if \<not> titleFound st \<and> isTitleCandidate l then Some (trim l) else title st)"
  by (auto simp: topStep_def Let_def isTitleCandidate_def isByline_def)

lemma topStep_titleFound:
  "titleFound (topStep st l) = (titleFound st \<or> isTitleCandidate l)"
  by (auto simp: topStep_def Let_def isTitleCandidate_def isByline_def)

lemma topLoop_title:
  "titleFound st = (title st \<noteq> None) \<Longrightarrow>
   title (foldl topStep st ls) =
     (case title st of Some t \<Rightarrow> Some t | None \<Rightarrow> map_option trim (find isTitleCandidate ls))"
proof (induction ls arbitrary: st)
  case Nil
  then show ?case by (simp split: option.splits)
next
  case (Cons l ls)
  have inv: "titleFound (topStep st l) = (title (topStep st l) \<noteq> None)"
    using Cons.prems by (simp add: topStep_title topStep_titleFound)
  show ?case
    using Cons.IH [OF inv] Cons.prems
    by (auto simp: topStep_title split: option.splits)
qed

lemma topLoop_titleFound:
  "titleFound (foldl topStep initial ls) = (title (foldl topStep initial ls) \<noteq> None)"
  by (induction ls rule: rev_induct)
    (simp_all add: initial_def topStep_title topStep_titleFound)

lemma topStep_author:
  "author (topStep st l) = (if isByline l then Some (trim l) else author st)"
  by (simp add: topStep_def Let_def isByline_def)

lemma topLoop_author:
  "author (foldl topStep st ls) =
     (case find isByline (rev ls) of Some l \<Rightarrow> Some (trim l) | None \<Rightarrow> author st)"
proof (induction ls rule: rev_induct)
  case Nil
  show ?case by simp
next
  case (snoc l ls)
  then show ?case by (simp add: topStep_author)
qed

lemma seoStep_title [simp]: "title (seoStep st l) = title st"
  by (simp add: seoStep_def Let_def)

lemma seoStep_author [simp]: "author (seoStep st l) = author st"
  by (simp add: seoStep_def Let_def)

lemma seoLoop_title [simp]: "title (foldl seoStep st ls) = title st"
  by (induction ls arbitrary: st) simp_all

lemma seoLoop_author [simp]: "author (foldl seoStep st ls) = author st"
  by (induction ls arbitrary: st) simp_all

lemma classify_title:
  "title (classify rawText) = map_option trim (find isTitleCandidate (preSeoLines rawText))"
  using topLoop_title [of initial "preSeoLines rawText"]
  by (simp add: classify_eq Let_def initial_def)

lemma classify_author:
  "author (classify rawText) = map_option trim (find isByline (rev (preSeoLines rawText)))"
  using topLoop_author [of initial "preSeoLines rawText"]
  by (simp add: classify_eq Let_def initial_def split: option.splits)

lemmas js_eval = js_def trim_def isWhiteSpace_def canonicalize_def reTest_def reRemove_def
  startsWith_def nonBlankLines_def isSeoStart_def preSeoLines_def seoBlock_def isByline_def
  isTitleCandidate_def seoMarkers_def bylinePattern_def slugPattern_def metaTitlePattern_def
  metaDescriptionPattern_def keywordsPattern_def

lemma docA_lines:
  "nonBlankLines docA = map js [''Draft v2'', ''How to Get a Medical Certificate Online'',
     ''By Dr. Alice Smith'', ''By Dr. Bob Jones'', ''Body paragraph.'',
     ''Slug: medical-certificate'', ''Meta Title: Certificates Online'']"
  by (simp add: docA_def js_eval)

lemma docA_pre:
  "preSeoLines docA = map js [''Draft v2'', ''How to Get a Medical Certificate Online'',
     ''By Dr. Alice Smith'', ''By Dr. Bob Jones'', ''Body paragraph.'']"
  unfolding preSeoLines_def docA_lines by (simp add: js_eval)

lemma docA_seo:
  "seoBlock docA = map js [''Slug: medical-certificate'', ''Meta Title: Certificates Online'']"
  unfolding seoBlock_def docA_lines by (simp add: js_eval)

lemma docA_title: "map_option trim (find isTitleCandidate (preSeoLines docA)) = Some (js ''How to Get a Medical Certificate Online'')"
  unfolding docA_pre by (simp add: js_eval)

lemma docA_classify:
  "classify docA = \<lparr>title = Some (js ''How to Get a Medical Certificate Online''),
     author = Some (js ''By Dr. Bob Jones''), slug = Some (js ''medical-certificate''),
     metaTitle = Some (js ''Certificates Online''), metaDescription = None,
     keywordsMeta = None, titleFound = True, contentLines = [js ''Body paragraph.''],
     descriptionLines = [], isParsingDescription = False\<rparr>"
  unfolding classify_eq docA_pre docA_seo
  by (simp add: js_eval initial_def topStep_def seoStep_def Let_def)

lemma docB_lines: "nonBlankLines docB = map js [''Notes'', ''By Dr. Alice Smith'']"
  by (simp add: docB_def js_eval)

lemma docB_pre: "preSeoLines docB = map js [''Notes'', ''By Dr. Alice Smith'']"
  unfolding preSeoLines_def docB_lines by (simp add: js_eval)

lemma docB_seo: "seoBlock docB = []"
  unfolding seoBlock_def docB_lines by (simp add: js_eval)

lemma docB_classify:
  "classify docB = initial\<lparr>author := Some (js ''By Dr. Alice Smith'')\<rparr>"
  unfolding classify_eq docB_pre docB_seo
  by (simp add: js_eval initial_def topStep_def Let_def)

lemma docC_lines:
  "nonBlankLines docC = map js [''How to Get a Medical Certificate Online'', ''Body paragraph.'']"
  by (simp add: docC_def js_eval)

lemma docC_pre:
  "preSeoLines docC = map js [''How to Get a Medical Certificate Online'', ''Body paragraph.'']"
  unfolding preSeoLines_def docC_lines by (simp add: js_eval)

lemma docC_seo: "seoBlock docC = []"
  unfolding seoBlock_def docC_lines by (simp add: js_eval)

lemma docC_classify:
  "classify docC = initial\<lparr>title := Some (js ''How to Get a Medical Certificate Online''),
     titleFound := True, contentLines := [js ''Body paragraph.'']\<rparr>"
  unfolding classify_eq docC_pre docC_seo
  by (simp add: js_eval initial_def topStep_def Let_def)

lemma topStep_slug [simp]: "slug (topStep st l) = slug st"
  by (simp add: topStep_def Let_def)

lemma topLoop_slug [simp]: "slug (foldl topStep st ls) = slug st"
  by (induction ls arbitrary: st) simp_all

lemma classify_no_seo:
  "seoBlock rawText = [] \<Longrightarrow> slug (classify rawText) = None"
  by (simp add: classify_eq Let_def initial_def)

lemma seoBlock_empty:
  "(seoBlock rawText = []) = (\<not> (\<exists>l\<in>set (nonBlankLines rawText). isSeoStart l))"
  by (auto simp: seoBlock_def)

lemma preSeoLines_no_seo:
  "\<not> (\<exists>l\<in>set (nonBlankLines rawText). isSeoStart l) \<Longrightarrow>
   preSeoLines rawText = nonBlankLines rawText"
  by (auto simp: preSeoLines_def)

lemma isTitleCandidate_nonempty: "isTitleCandidate l \<Longrightarrow> trim l \<noteq> []"
  by (auto simp: isTitleCandidate_def)

lemma title_not_empty: "title (classify rawText) \<noteq> Some []"
proof
  assume "title (classify rawText) = Some []"
  then obtain l where "find isTitleCandidate (preSeoLines rawText) = Some l" "trim l = []"
    by (auto simp: classify_title)
  then show False
    by (auto simp: find_Some_iff dest: isTitleCandidate_nonempty)
qed

lemma messages_distinct:
  "titleMessage f \<noteq> slugMessage f" "titleMessage f \<noteq> metaTitleMessage f"
  "slugMessage f \<noteq> metaTitleMessage f"
  by (simp_all add: titleMessage_def slugMessage_def metaTitleMessage_def js_def)

subsection \<open>The title\<close>

text \<open>
  Claim C1. For every raw document that contains an SEO-block-start line, the extracted
  title is the (trimmed) text of the first line before the SEO-block start whose trimmed
  length is greater than 20, that is not a byline and that does not contain "Medically
  reviewed": the first match wins, and once a title is assigned no later step of the loop
  assigns another. It is the title of the metadata when the validation starts and of the
  record that \<open>extractData\<close> returns.
\<close>

theorem extractData_title_first_match:
  assumes "\<exists>l\<in>set (nonBlankLines rawText). isSeoStart l"
  shows "title (classify rawText) =
           map_option trim (find isTitleCandidate (preSeoLines rawText))
       \<and> (\<forall>m c. extractData rawText filePath = Inr (m, c) \<longrightarrow>
             title m = map_option trim (find isTitleCandidate (preSeoLines rawText)))
       \<and> (\<forall>ls l. title (foldl topStep initial ls) \<noteq> None \<longrightarrow>
             title (topStep (foldl topStep initial ls) l) = title (foldl topStep initial ls))"
proof -
  have "title m = title (classify rawText)"
    if "extractData rawText filePath = Inr (m, c)" for m c
    using that
    by (auto simp: extractData_def Let_def metadata.truncate_def split: if_splits)
  moreover have "title (topStep (foldl topStep initial ls) l) = title (foldl topStep initial ls)"
    if "title (foldl topStep initial ls) \<noteq> None" for ls l
    using that topLoop_titleFound [of ls] by (simp add: topStep_title)
  ultimately show ?thesis by (simp add: classify_title)
qed

theorem extractData_title_first_match_witness:
  "(\<exists>l\<in>set (nonBlankLines docA). isSeoStart l)
   \<and> title (classify docA) = Some (js ''How to Get a Medical Certificate Online'')
   \<and> (\<exists>m c. extractData docA (js ''doc/a.docx'') = Inr (m, c)
         \<and> title m = Some (js ''How to Get a Medical Certificate Online''))"
proof -
  have h: "\<exists>l\<in>set (nonBlankLines docA). isSeoStart l"
    unfolding docA_lines by (simp add: js_eval)
  have r: "\<exists>m c. extractData docA (js ''doc/a.docx'') = Inr (m, c)"
    by (simp add: extractData_def docA_classify falsy_def js_def)
  from extractData_title_first_match [OF h, of "js ''doc/a.docx''"] h r show ?thesis
    unfolding docA_title by auto
qed

subsection \<open>The author\<close>

text \<open>
  Claim C8, as the code has it. Every line before the SEO-block start that matches
  \<open>/^By Dr\./i\<close> assigns the author field, so the extracted author is the (trimmed)
  text of the last such line, not of the first.
\<close>

theorem extractData_author_last_byline:
  "author (classify rawText) = map_option trim (find isByline (rev (preSeoLines rawText)))
   \<and> (\<forall>m c. extractData rawText filePath = Inr (m, c) \<longrightarrow>
         author m = map_option trim (find isByline (rev (preSeoLines rawText))))"
proof -
  have "author m = author (classify rawText)"
    if "extractData rawText filePath = Inr (m, c)" for m c
    using that
    by (auto simp: extractData_def Let_def metadata.truncate_def split: if_splits)
  then show ?thesis by (simp add: classify_author)
qed

theorem extractData_author_last_byline_witness:
  "author (classify docA) = Some (js ''By Dr. Bob Jones'')
   \<and> (\<exists>m c. extractData docA (js ''doc/a.docx'') = Inr (m, c)
         \<and> author m = Some (js ''By Dr. Bob Jones''))"
proof -
  have r: "\<exists>m c. extractData docA (js ''doc/a.docx'') = Inr (m, c)"
    by (simp add: extractData_def docA_classify falsy_def js_def)
  have l: "map_option trim (find isByline (rev (preSeoLines docA))) = Some (js ''By Dr. Bob Jones'')"
    unfolding docA_pre by (simp add: js_eval)
  from extractData_author_last_byline [of docA "js ''doc/a.docx''"] r show ?thesis
    unfolding l by auto
qed

theorem extractData_author_first_byline_counterexample:
  "filter isByline (preSeoLines docA) = [js ''By Dr. Alice Smith'', js ''By Dr. Bob Jones'']
   \<and> map_option trim (find isByline (preSeoLines docA)) = Some (js ''By Dr. Alice Smith'')
   \<and> author (classify docA) = Some (js ''By Dr. Bob Jones'')
   \<and> author (classify docA) \<noteq> map_option trim (find isByline (preSeoLines docA))"
  unfolding docA_pre docA_classify by (simp add: js_eval)

subsection \<open>Documents without an SEO block\<close>

text \<open>
  Claim C2, as the code has it. For every raw text with no SEO-block-start line,
  \<open>extractData\<close> fails with a validation error that names the file: the missing-title
  error when no line can be the title, and the missing-slug error otherwise.
\<close>

theorem extractData_no_seo_block:
  assumes "\<not> (\<exists>l\<in>set (nonBlankLines rawText). isSeoStart l)"
  shows "extractData rawText filePath =
           Inl (Error (if find isTitleCandidate (nonBlankLines rawText) = None
                       then titleMessage filePath else slugMessage filePath))"
proof -
  from assms have s: "slug (classify rawText) = None"
    by (simp add: classify_no_seo seoBlock_empty)
  have t: "title (classify rawText) = map_option trim (find isTitleCandidate (nonBlankLines rawText))"
    using assms by (simp add: classify_title preSeoLines_no_seo)
  show ?thesis
    using title_not_empty [of rawText]
    by (auto simp: extractData_def Let_def falsy_def s t titleMessage_def slugMessage_def)
qed

theorem extractData_no_seo_block_witness:
  "\<not> (\<exists>l\<in>set (nonBlankLines docC). isSeoStart l)
   \<and> extractData docC (js ''doc/c.docx'') = Inl (Error (slugMessage (js ''doc/c.docx'')))"
proof -
  have h: "\<not> (\<exists>l\<in>set (nonBlankLines docC). isSeoStart l)"
    unfolding docC_lines by (simp add: js_eval)
  have f: "find isTitleCandidate (nonBlankLines docC) \<noteq> None"
    unfolding docC_lines by (simp add: js_eval)
  from extractData_no_seo_block [OF h, of "js ''doc/c.docx''"] h f show ?thesis by simp
qed

theorem extractData_no_seo_block_counterexample:
  "\<not> (\<exists>l\<in>set (nonBlankLines docB). isSeoStart l)
   \<and> extractData docB (js ''doc/b.docx'') = Inl (Error (titleMessage (js ''doc/b.docx'')))
   \<and> extractData docB (js ''doc/b.docx'') \<noteq> Inl (Error (slugMessage (js ''doc/b.docx'')))
   \<and> extractData docB (js ''doc/b.docx'') \<noteq> Inl (Error (metaTitleMessage (js ''doc/b.docx'')))"
proof -
  have h: "\<not> (\<exists>l\<in>set (nonBlankLines docB). isSeoStart l)"
    unfolding docB_lines by (simp add: js_eval)
  have e: "extractData docB (js ''doc/b.docx'') = Inl (Error (titleMessage (js ''doc/b.docx'')))"
    by (simp add: extractData_def docB_classify falsy_def initial_def titleMessage_def)
  show ?thesis using h messages_distinct [of "js ''doc/b.docx''"] unfolding e by simp
qed

subsection \<open>The SEO block\<close>

lemma matchesAtStart_iff:
  "matchesAtStart p s =
     (length p \<le> length s \<and> map canonicalize (take (length p) s) = map canonicalize p)"
  by (induction p s rule: matchesAtStart.induct) auto

lemma matchesAtStart_take:
  assumes "matchesAtStart p s" and "n \<le> length p"
  shows "map canonicalize (take n s) = map canonicalize (take n p)"
proof -
  from assms have "map canonicalize (take (length p) s) = map canonicalize p"
    by (simp add: matchesAtStart_iff)
  then have "take n (map canonicalize (take (length p) s)) = take n (map canonicalize p)"
    by simp
  with assms(2) show ?thesis by (simp add: take_map min_def)
qed

lemma reMatch_Some:
  "reMatch alts suffix s = Some k \<Longrightarrow> \<exists>a\<in>set alts. matchesAtStart (a @ suffix) s"
  by (induction alts) (auto split: if_splits)

lemma reTest_key:
  assumes "reTest alts suffix s" and "\<forall>a\<in>set alts. n \<le> length (a @ suffix)"
  shows "map canonicalize (take n s) \<in> (\<lambda>a. map canonicalize (take n (a @ suffix))) ` set alts"
proof -
  from assms(1) obtain a where a: "a \<in> set alts" "matchesAtStart (a @ suffix) s"
    by (auto simp: reTest_def dest: reMatch_Some)
  with assms(2) have "map canonicalize (take n s) = map canonicalize (take n (a @ suffix))"
    by (intro matchesAtStart_take) auto
  with a(1) show ?thesis by blast
qed

lemma slug_key: "isSlugLine l \<Longrightarrow> map canonicalize (take 1 (trim l)) \<in> {[83], [85]}"
  using reTest_key [of slugPattern "js '':''" "trim l" 1]
  by (auto simp: isSlugLine_def slugPattern_def js_def canonicalize_def)

lemma keywords_key: "isKeywordsLine l \<Longrightarrow> map canonicalize (take 1 (trim l)) \<in> {[80]}"
  using reTest_key [of keywordsPattern "js '':''" "trim l" 1]
  by (auto simp: isKeywordsLine_def keywordsPattern_def js_def canonicalize_def)

lemma metaTitle_key1: "isMetaTitleLine l \<Longrightarrow> map canonicalize (take 1 (trim l)) \<in> {[77], [79]}"
  using reTest_key [of metaTitlePattern "js '':''" "trim l" 1]
  by (auto simp: isMetaTitleLine_def metaTitlePattern_def js_def canonicalize_def)

lemma metaDescription_key1:
  "isMetaDescriptionLine l \<Longrightarrow> map canonicalize (take 1 (trim l)) \<in> {[77], [67]}"
  using reTest_key [of metaDescriptionPattern "js '':''" "trim l" 1]
  by (auto simp: isMetaDescriptionLine_def metaDescriptionPattern_def js_def canonicalize_def)

lemma metaTitle_key6:
  "isMetaTitleLine l \<Longrightarrow>
   map canonicalize (take 6 (trim l)) \<in> {[77, 69, 84, 65, 32, 84], [79, 80, 84, 73, 77, 73]}"
  using reTest_key [of metaTitlePattern "js '':''" "trim l" 6]
  by (auto simp: isMetaTitleLine_def metaTitlePattern_def js_def canonicalize_def)

lemma metaDescription_key6:
  "isMetaDescriptionLine l \<Longrightarrow>
   map canonicalize (take 6 (trim l)) \<in> {[77, 69, 84, 65, 32, 68], [67, 79, 77, 80, 69, 76]}"
  using reTest_key [of metaDescriptionPattern "js '':''" "trim l" 6]
  by (auto simp: isMetaDescriptionLine_def metaDescriptionPattern_def js_def canonicalize_def)

lemma slug_exclusive:
  "isSlugLine l \<Longrightarrow> \<not> isMetaTitleLine l \<and> \<not> isMetaDescriptionLine l \<and> \<not> isKeywordsLine l"
  using slug_key [of l] metaTitle_key1 [of l] metaDescription_key1 [of l] keywords_key [of l]
  by auto

lemma keywords_exclusive:
  "isKeywordsLine l \<Longrightarrow> \<not> isSlugLine l \<and> \<not> isMetaTitleLine l \<and> \<not> isMetaDescriptionLine l"
  using slug_key [of l] metaTitle_key1 [of l] metaDescription_key1 [of l] keywords_key [of l]
  by auto

lemma metaTitle_exclusive:
  "isMetaTitleLine l \<Longrightarrow> \<not> isSlugLine l \<and> \<not> isMetaDescriptionLine l \<and> \<not> isKeywordsLine l"
  using slug_key [of l] metaTitle_key6 [of l] metaDescription_key6 [of l] keywords_key [of l]
    metaTitle_key1 [of l]
  by auto

lemma metaDescription_exclusive:
  "isMetaDescriptionLine l \<Longrightarrow> \<not> isSlugLine l \<and> \<not> isMetaTitleLine l \<and> \<not> isKeywordsLine l"
  using slug_exclusive [of l] metaTitle_exclusive [of l] keywords_exclusive [of l] by blast

lemma seoStep_slug:
  "slug (seoStep st l) = (if isSlugLine l then Some (fieldValue slugPattern l) else slug st)"
  by (simp add: seoStep_def Let_def isSlugLine_def fieldValue_def)

lemma seoStep_metaTitle:
  "metaTitle (seoStep st l) =
     (if isMetaTitleLine l then Some (fieldValue metaTitlePattern l) else metaTitle st)"
  using metaTitle_exclusive [of l]
  by (auto simp: seoStep_def Let_def isMetaTitleLine_def isSlugLine_def fieldValue_def)

lemma seoStep_keywords:
  "keywordsMeta (seoStep st l) =
     (if isKeywordsLine l then Some (fieldValue keywordsPattern l) else keywordsMeta st)"
  using keywords_exclusive [of l]
  by (auto simp: seoStep_def Let_def isKeywordsLine_def isSlugLine_def isMetaTitleLine_def
      isMetaDescriptionLine_def fieldValue_def)

lemma seoStep_descriptionLines:
  "descriptionLines (seoStep st l) =
     (if isMetaDescriptionLine l
        then descriptionLines st @ [fieldValue metaDescriptionPattern l]
      else if \<not> isFieldLine l \<and> isParsingDescription st
        then descriptionLines st @ [trim l]
      else descriptionLines st)"
  using metaDescription_exclusive [of l]
  by (auto simp: seoStep_def Let_def isKeywordsLine_def isSlugLine_def isMetaTitleLine_def
      isMetaDescriptionLine_def isFieldLine_def fieldValue_def)

lemma seoStep_isParsingDescription:
  "isParsingDescription (seoStep st l) =
     (if isMetaDescriptionLine l then True
      else if isFieldLine l then False
      else isParsingDescription st)"
  using metaDescription_exclusive [of l]
  by (auto simp: seoStep_def Let_def isKeywordsLine_def isSlugLine_def isMetaTitleLine_def
      isMetaDescriptionLine_def isFieldLine_def)

lemma seoLoop_slug:
  "slug (foldl seoStep st ls) =
     (case find isSlugLine (rev ls) of
        Some l \<Rightarrow> Some (fieldValue slugPattern l) | None \<Rightarrow> slug st)"
  by (induction ls rule: rev_induct) (simp_all add: seoStep_slug)

lemma seoLoop_metaTitle:
  "metaTitle (foldl seoStep st ls) =
     (case find isMetaTitleLine (rev ls) of
        Some l \<Rightarrow> Some (fieldValue metaTitlePattern l) | None \<Rightarrow> metaTitle st)"
  by (induction ls rule: rev_induct) (simp_all add: seoStep_metaTitle)

lemma seoLoop_keywords:
  "keywordsMeta (foldl seoStep st ls) =
     (case find isKeywordsLine (rev ls) of
        Some l \<Rightarrow> Some (fieldValue keywordsPattern l) | None \<Rightarrow> keywordsMeta st)"
  by (induction ls rule: rev_induct) (simp_all add: seoStep_keywords)

lemmas seo_eval = isSlugLine_def isMetaTitleLine_def isMetaDescriptionLine_def
  isKeywordsLine_def isFieldLine_def fieldValue_def

lemma topStep_description [simp]:
  "descriptionLines (topStep st l) = descriptionLines st"
  "isParsingDescription (topStep st l) = isParsingDescription st"
  "metaTitle (topStep st l) = metaTitle st"
  "keywordsMeta (topStep st l) = keywordsMeta st"
  "metaDescription (topStep st l) = metaDescription st"
  by (simp_all add: topStep_def Let_def)

lemma topLoop_description [simp]:
  "descriptionLines (foldl topStep st ls) = descriptionLines st"
  "isParsingDescription (foldl topStep st ls) = isParsingDescription st"
  "metaTitle (foldl topStep st ls) = metaTitle st"
  "keywordsMeta (foldl topStep st ls) = keywordsMeta st"
  "metaDescription (foldl topStep st ls) = metaDescription st"
  by (induction ls arbitrary: st) simp_all

lemma seoLoop_no_description:
  "\<forall>l\<in>set ls. \<not> isMetaDescriptionLine l \<Longrightarrow> \<not> isParsingDescription st \<Longrightarrow>
   descriptionLines (foldl seoStep st ls) = descriptionLines st
   \<and> \<not> isParsingDescription (foldl seoStep st ls)"
proof (induction ls arbitrary: st)
  case Nil
  then show ?case by simp
next
  case (Cons l ls)
  from Cons.prems have "descriptionLines (seoStep st l) = descriptionLines st"
    and "\<not> isParsingDescription (seoStep st l)"
    by (simp_all add: seoStep_descriptionLines seoStep_isParsingDescription)
  with Cons.IH [of "seoStep st l"] Cons.prems show ?case by simp
qed

lemma seoLoop_continuation:
  "\<forall>l\<in>set ls. \<not> isFieldLine l \<Longrightarrow> isParsingDescription st \<Longrightarrow>
   descriptionLines (foldl seoStep st ls) = descriptionLines st @ map trim ls
   \<and> isParsingDescription (foldl seoStep st ls)"
proof (induction ls arbitrary: st)
  case Nil
  then show ?case by simp
next
  case (Cons l ls)
  from Cons.prems have nf: "\<not> isFieldLine l" by simp
  then have nd: "\<not> isMetaDescriptionLine l" by (simp add: isFieldLine_def)
  from Cons.prems nf nd have "descriptionLines (seoStep st l) = descriptionLines st @ [trim l]"
    and "isParsingDescription (seoStep st l)"
    by (simp_all add: seoStep_descriptionLines seoStep_isParsingDescription)
  with Cons.IH [of "seoStep st l"] Cons.prems show ?case by simp
qed

lemma seoLoop_after_description:
  assumes "post = [] \<or> (isFieldLine (hd post) \<and> (\<forall>l\<in>set post. \<not> isMetaDescriptionLine l))"
  shows "descriptionLines (foldl seoStep st post) = descriptionLines st"
proof (cases post)
  case Nil
  then show ?thesis by simp
next
  case (Cons f rest)
  with assms have f: "isFieldLine f" "\<not> isMetaDescriptionLine f"
    and r: "\<forall>l\<in>set rest. \<not> isMetaDescriptionLine l" by auto
  from f have "descriptionLines (seoStep st f) = descriptionLines st"
    and "\<not> isParsingDescription (seoStep st f)"
    by (simp_all add: seoStep_descriptionLines seoStep_isParsingDescription)
  with seoLoop_no_description [OF r, of "seoStep st f"] Cons show ?thesis by simp
qed

lemma seoLoop_one_description:
  assumes "\<forall>l\<in>set pre. \<not> isMetaDescriptionLine l"
      and "isMetaDescriptionLine d"
      and "\<forall>l\<in>set conts. \<not> isFieldLine l"
      and "post = [] \<or> (isFieldLine (hd post) \<and> (\<forall>l\<in>set post. \<not> isMetaDescriptionLine l))"
      and "\<not> isParsingDescription st"
  shows "descriptionLines (foldl seoStep st (pre @ d # conts @ post)) =
           descriptionLines st @ fieldValue metaDescriptionPattern d # map trim conts"
proof -
  let ?s0 = "foldl seoStep st pre"
  let ?s1 = "seoStep ?s0 d"
  let ?s2 = "foldl seoStep ?s1 conts"
  have s0: "descriptionLines ?s0 = descriptionLines st"
    using seoLoop_no_description [OF assms(1) assms(5)] by simp
  have s1: "descriptionLines ?s1 = descriptionLines st @ [fieldValue metaDescriptionPattern d]"
    "isParsingDescription ?s1"
    using assms(2) s0 by (simp_all add: seoStep_descriptionLines seoStep_isParsingDescription)
  have s2: "descriptionLines ?s2 =
      descriptionLines st @ fieldValue metaDescriptionPattern d # map trim conts"
    using seoLoop_continuation [OF assms(3) s1(2)] s1(1) by simp
  have "descriptionLines (foldl seoStep ?s2 post) = descriptionLines ?s2"
    by (rule seoLoop_after_description [OF assms(4)])
  with s2 show ?thesis by simp
qed

lemma seoLoop_descriptionLines_grow:
  "\<exists>r. descriptionLines (foldl seoStep st ls) = descriptionLines st @ r"
proof (induction ls rule: rev_induct)
  case Nil
  show ?case by simp
next
  case (snoc l ls)
  then obtain r where "descriptionLines (foldl seoStep st ls) = descriptionLines st @ r" ..
  then show ?case by (simp add: seoStep_descriptionLines)
qed

lemma seoLoop_two_descriptions:
  assumes "isMetaDescriptionLine d1" and "isMetaDescriptionLine d2"
  shows "\<exists>a b c. descriptionLines (foldl seoStep st (pre @ d1 # mid @ d2 # post)) =
           a @ fieldValue metaDescriptionPattern d1 # b @ fieldValue metaDescriptionPattern d2 # c"
proof -
  let ?s0 = "foldl seoStep st pre"
  let ?s1 = "seoStep ?s0 d1"
  let ?s2 = "foldl seoStep ?s1 mid"
  let ?s3 = "seoStep ?s2 d2"
  have s1: "descriptionLines ?s1 = descriptionLines ?s0 @ [fieldValue metaDescriptionPattern d1]"
    using assms(1) by (simp add: seoStep_descriptionLines)
  obtain b where s2: "descriptionLines ?s2 = descriptionLines ?s1 @ b"
    using seoLoop_descriptionLines_grow [of ?s1 mid] by blast
  have s3: "descriptionLines ?s3 = descriptionLines ?s2 @ [fieldValue metaDescriptionPattern d2]"
    using assms(2) by (simp add: seoStep_descriptionLines)
  obtain c where s4: "descriptionLines (foldl seoStep ?s3 post) = descriptionLines ?s3 @ c"
    using seoLoop_descriptionLines_grow [of ?s3 post] by blast
  have "descriptionLines (foldl seoStep st (pre @ d1 # mid @ d2 # post)) =
      descriptionLines ?s0 @ fieldValue metaDescriptionPattern d1 # b
        @ fieldValue metaDescriptionPattern d2 # c"
    using s1 s2 s3 s4 by simp
  then show ?thesis by blast
qed

lemma classify_descriptionLines:
  "descriptionLines (classify rawText) =
     descriptionLines (foldl seoStep (foldl topStep initial (preSeoLines rawText)) (seoBlock rawText))"
  by (simp add: classify_eq Let_def initial_def)

lemma classify_metaDescription:
  "metaDescription (classify rawText) =
     (if descriptionLines (classify rawText) = [] then None
      else Some (trim (join (js '' '') (descriptionLines (classify rawText)))))"
proof -
  have "metaDescription (foldl seoStep st ls) = metaDescription st" for st ls
    by (induction ls arbitrary: st) (simp_all add: seoStep_def Let_def)
  then show ?thesis
    by (simp add: classify_eq Let_def initial_def)
qed

lemma classify_slug:
  "slug (classify rawText) =
     map_option (fieldValue slugPattern) (find isSlugLine (rev (seoBlock rawText)))"
  by (simp add: classify_eq Let_def seoLoop_slug initial_def split: option.splits)

lemma classify_metaTitle:
  "metaTitle (classify rawText) =
     map_option (fieldValue metaTitlePattern) (find isMetaTitleLine (rev (seoBlock rawText)))"
  by (simp add: classify_eq Let_def seoLoop_metaTitle initial_def split: option.splits)

lemma classify_keywords:
  "keywordsMeta (classify rawText) =
     map_option (fieldValue keywordsPattern) (find isKeywordsLine (rev (seoBlock rawText)))"
  by (simp add: classify_eq Let_def seoLoop_keywords initial_def split: option.splits)

lemma trim_noop:
  assumes "s \<noteq> []" and "\<not> isWhiteSpace (hd s)" and "\<not> isWhiteSpace (last s)"
  shows "trim s = s"
proof -
  from assms(1,2) have a: "dropWhile isWhiteSpace s = s" by (cases s) simp_all
  from assms(1,3) have "dropWhile isWhiteSpace (rev s) = rev s"
    by (cases "rev s") (simp_all add: hd_rev)
  with a show ?thesis by (simp add: trim_def)
qed

lemma last_dropWhile: "dropWhile P xs \<noteq> [] \<Longrightarrow> last (dropWhile P xs) = last xs"
  by (induction xs) (auto split: if_splits)

lemma trim_hd:
  assumes "trim s \<noteq> []"
  shows "\<not> isWhiteSpace (hd (trim s))"
proof -
  let ?t = "dropWhile isWhiteSpace s"
  let ?u = "dropWhile isWhiteSpace (rev ?t)"
  from assms have u: "?u \<noteq> []" by (simp add: trim_def)
  have t: "?t \<noteq> []"
  proof
    assume "?t = []"
    then have "?u = []" by (simp only: rev.simps dropWhile.simps)
    with u show False by contradiction
  qed
  have "hd (trim s) = last ?u" using u by (simp add: trim_def hd_rev)
  also have "\<dots> = last (rev ?t)" using u by (rule last_dropWhile)
  also have "\<dots> = hd ?t" using t by (simp add: last_rev)
  finally show ?thesis using t hd_dropWhile [of isWhiteSpace s] by simp
qed

lemma trim_last:
  assumes "trim s \<noteq> []"
  shows "\<not> isWhiteSpace (last (trim s))"
proof -
  let ?u = "dropWhile isWhiteSpace (rev (dropWhile isWhiteSpace s))"
  from assms have u: "?u \<noteq> []" by (simp add: trim_def)
  have "last (trim s) = hd ?u" using u by (simp add: trim_def last_rev)
  then show ?thesis using u hd_dropWhile [of isWhiteSpace "rev (dropWhile isWhiteSpace s)"] by simp
qed

lemma set_trim: "set (trim s) \<subseteq> set s"
proof -
  have "set (dropWhile P xs) \<subseteq> set xs" for P and xs :: "nat list"
    by (auto dest: set_dropWhileD)
  from this [of isWhiteSpace "rev (dropWhile isWhiteSpace s)"] this [of isWhiteSpace s]
  show ?thesis by (auto simp: trim_def)
qed

lemma set_reRemove: "set (reRemove alts suffix s) \<subseteq> set s"
  by (auto simp: reRemove_def split: option.splits dest: in_set_dropD)

lemma set_fieldValue: "set (fieldValue pattern l) \<subseteq> set l"
  using set_trim [of "reRemove pattern (js '':'') (trim l)"]
    set_reRemove [of pattern "js '':''" "trim l"] set_trim [of l]
  by (auto simp: fieldValue_def)

lemma join_hd: "x \<noteq> [] \<Longrightarrow> hd (join sep (x # xs)) = hd x"
  by (cases xs) simp_all

lemma join_nonempty: "x \<noteq> [] \<Longrightarrow> join sep (x # xs) \<noteq> []"
  by (cases xs) simp_all

lemma join_last: "last (x # xs) \<noteq> [] \<Longrightarrow> last (join sep (x # xs)) = last (last (x # xs))"
proof (induction xs arbitrary: x)
  case Nil
  then show ?case by simp
next
  case (Cons y ys)
  from Cons.prems have l: "last (y # ys) \<noteq> []" by simp
  then have "join sep (y # ys) \<noteq> []"
    by (induction ys arbitrary: y) (simp_all split: if_splits)
  with Cons.IH [OF l] show ?case by simp
qed

lemma set_join: "set (join sep xs) \<subseteq> set sep \<union> \<Union> (set ` set xs)"
  by (induction sep xs rule: join.induct) auto

lemma splitOn_no_sep: "l \<in> set (splitOn sep s) \<Longrightarrow> sep \<notin> set l"
proof (induction s arbitrary: l)
  case Nil
  then show ?case by simp
next
  case (Cons c cs)
  then show ?case by (cases "splitOn sep cs") (auto split: if_splits)
qed

lemma nonBlankLines_line:
  "l \<in> set (nonBlankLines rawText) \<Longrightarrow> trim l \<noteq> [] \<and> 10 \<notin> set l"
  by (auto simp: nonBlankLines_def dest: splitOn_no_sep)

lemma seoBlock_line: "l \<in> set (seoBlock rawText) \<Longrightarrow> trim l \<noteq> [] \<and> 10 \<notin> set l"
  using nonBlankLines_line [of l rawText] by (auto simp: seoBlock_def dest: set_dropWhileD)

lemma seoStep_no_newline:
  assumes "\<forall>x\<in>set (descriptionLines st). 10 \<notin> set x" and "10 \<notin> set l"
  shows "\<forall>x\<in>set (descriptionLines (seoStep st l)). 10 \<notin> set x"
  using assms set_fieldValue [of metaDescriptionPattern l] set_trim [of l]
  by (auto simp: seoStep_descriptionLines)

lemma seoLoop_no_newline:
  "\<forall>x\<in>set (descriptionLines st). 10 \<notin> set x \<Longrightarrow> \<forall>l\<in>set ls. 10 \<notin> set l \<Longrightarrow>
   \<forall>x\<in>set (descriptionLines (foldl seoStep st ls)). 10 \<notin> set x"
proof (induction ls arbitrary: st)
  case Nil
  then show ?case by simp
next
  case (Cons l ls)
  from Cons.prems have "\<forall>x\<in>set (descriptionLines (seoStep st l)). 10 \<notin> set x"
    by (intro seoStep_no_newline) simp_all
  with Cons.IH [of "seoStep st l"] Cons.prems show ?case by simp
qed

lemma metaDescription_no_newline:
  assumes "metaDescription (classify rawText) = Some d"
  shows "10 \<notin> set d"
proof -
  have "\<forall>x\<in>set (descriptionLines (classify rawText)). 10 \<notin> set x"
    unfolding classify_descriptionLines
    by (rule seoLoop_no_newline) (auto simp: initial_def dest: seoBlock_line)
  moreover from assms
  have "d = trim (join (js '' '') (descriptionLines (classify rawText)))"
    by (simp add: classify_metaDescription split: if_splits)
  ultimately show ?thesis
    using set_trim [of "join (js '' '') (descriptionLines (classify rawText))"]
      set_join [of "js '' ''" "descriptionLines (classify rawText)"]
    by (auto simp: js_def)
qed

subsection \<open>The meta description\<close>

text \<open>
  Claim C3. When the SEO block has one Meta Description line \<open>d\<close>, followed by the
  continuation lines \<open>conts\<close> (lines that match none of the four field patterns) and
  then by nothing or by another field line, the assembled \<open>metaDescription\<close> is the value
  of \<open>d\<close> (label removed, trimmed) followed by the trimmed continuation lines, joined with
  single spaces (and trimmed as a whole, which changes nothing unless the value of \<open>d\<close>
  is empty); it contains no newline. "Meta Description: Part one." followed by
  "continued sentence." gives "Part one. continued sentence.".
\<close>

theorem metaDescription_multi_line:
  assumes "seoBlock rawText = pre @ d # conts @ post"
      and "\<forall>l\<in>set pre. \<not> isMetaDescriptionLine l"
      and "isMetaDescriptionLine d"
      and "\<forall>l\<in>set conts. \<not> isFieldLine l"
      and "post = [] \<or> (isFieldLine (hd post) \<and> (\<forall>l\<in>set post. \<not> isMetaDescriptionLine l))"
  shows "metaDescription (classify rawText) =
           Some (trim (join (js '' '') (fieldValue metaDescriptionPattern d # map trim conts)))
       \<and> (fieldValue metaDescriptionPattern d \<noteq> [] \<longrightarrow>
            metaDescription (classify rawText) =
              Some (join (js '' '') (fieldValue metaDescriptionPattern d # map trim conts)))
       \<and> (\<forall>v. metaDescription (classify rawText) = Some v \<longrightarrow> 10 \<notin> set v)"
proof -
  let ?v = "fieldValue metaDescriptionPattern d"
  let ?parts = "?v # map trim conts"
  have dl: "descriptionLines (classify rawText) = ?parts"
    unfolding classify_descriptionLines assms(1)
    using seoLoop_one_description [OF assms(2-5), of "foldl topStep initial (preSeoLines rawText)"]
    by (simp add: initial_def)
  then have md: "metaDescription (classify rawText) = Some (trim (join (js '' '') ?parts))"
    by (simp add: classify_metaDescription)
  have exact: "trim (join (js '' '') ?parts) = join (js '' '') ?parts" if v: "?v \<noteq> []"
  proof (rule trim_noop)
    show "join (js '' '') ?parts \<noteq> []" using v by (rule join_nonempty)
    have "\<not> isWhiteSpace (hd ?v)"
      using v trim_hd [of "reRemove metaDescriptionPattern (js '':'') (trim d)"]
      by (simp add: fieldValue_def)
    then show "\<not> isWhiteSpace (hd (join (js '' '') ?parts))" using v by (simp add: join_hd)
    have "last ?parts \<noteq> [] \<and> \<not> isWhiteSpace (last (last ?parts))"
    proof (cases "conts = []")
      case True
      then show ?thesis
        using v trim_last [of "reRemove metaDescriptionPattern (js '':'') (trim d)"]
        by (simp add: fieldValue_def)
    next
      case False
      then have "last conts \<in> set (seoBlock rawText)" by (simp add: assms(1))
      then have "trim (last conts) \<noteq> []" by (simp add: seoBlock_line)
      then show ?thesis using False trim_last [of "last conts"] by (simp add: last_map)
    qed
    then show "\<not> isWhiteSpace (last (join (js '' '') ?parts))" by (simp add: join_last)
  qed
  show ?thesis using md exact metaDescription_no_newline [of rawText] by simp
qed

lemma docD_pre: "preSeoLines docD = [js ''How to Get a Medical Certificate Online'']"
  by (simp add: docD_def js_eval)

lemma docD_seo:
  "seoBlock docD = map js [''Slug: medical-certificate'', ''Meta Title: Certificates Online'']
     @ js ''Meta Description: Part one.'' # [js ''continued sentence.'']
     @ [js ''Primary Keywords: a, b'']"
  by (simp add: docD_def js_eval)

lemma docE_pre: "preSeoLines docE = [js ''How to Get a Medical Certificate Online'']"
  by (simp add: docE_def js_eval)

lemma docE_seo:
  "seoBlock docE = map js [''Slug: first-slug'', ''Meta Title: First'']
     @ js ''Meta Description: A''
     # map js [''Slug: second-slug'', ''Meta Title: Second'']
     @ js ''Meta Description: B''
     # map js [''Primary Keywords: k1'', ''Primary Keywords: k2'']"
  by (simp add: docE_def js_eval)

lemma docE_classify:
  "classify docE = \<lparr>title = Some (js ''How to Get a Medical Certificate Online''),
     author = None, slug = Some (js ''second-slug''), metaTitle = Some (js ''Second''),
     metaDescription = Some (js ''A B''), keywordsMeta = Some (js ''k2''),
     titleFound = True, contentLines = [], descriptionLines = [js ''A'', js ''B''],
     isParsingDescription = False\<rparr>"
  unfolding classify_eq docE_pre docE_seo
  by (simp add: js_eval initial_def topStep_def seoStep_def Let_def)

lemma docF_classify:
  "classify docF = initial\<lparr>title := Some (js ''How to Get a Medical Certificate Online''),
     titleFound := True, metaTitle := Some (js ''Certificates Online'')\<rparr>"
  by (simp add: classify_eq docF_def js_eval initial_def topStep_def seoStep_def Let_def)

lemma docG_classify:
  "classify docG = initial\<lparr>title := Some (js ''How to Get a Medical Certificate Online''),
     titleFound := True, slug := Some (js ''medical-certificate'')\<rparr>"
  by (simp add: classify_eq docG_def js_eval initial_def topStep_def seoStep_def Let_def)

lemma docH_classify:
  "classify docH = initial\<lparr>title := Some (js ''How to Get a Medical Certificate Online''),
     titleFound := True, slug := Some (js ''medical-certificate''),
     metaTitle := Some (js ''Certificates Online'')\<rparr>"
  by (simp add: classify_eq docH_def js_eval initial_def topStep_def seoStep_def Let_def)

theorem metaDescription_multi_line_witness:
  "seoBlock docD = map js [''Slug: medical-certificate'', ''Meta Title: Certificates Online'']
     @ js ''Meta Description: Part one.'' # [js ''continued sentence.'']
     @ [js ''Primary Keywords: a, b'']
   \<and> isMetaDescriptionLine (js ''Meta Description: Part one.'')
   \<and> \<not> isFieldLine (js ''continued sentence.'')
   \<and> isFieldLine (js ''Primary Keywords: a, b'')
   \<and> fieldValue metaDescriptionPattern (js ''Meta Description: Part one.'') = js ''Part one.''
   \<and> metaDescription (classify docD) = Some (js ''Part one. continued sentence.'')
   \<and> 10 \<notin> set (js ''Part one. continued sentence.'')"
proof -
  have pre: "\<forall>l\<in>set (map js [''Slug: medical-certificate'', ''Meta Title: Certificates Online'']).
      \<not> isMetaDescriptionLine l"
    by (simp add: js_eval seo_eval)
  have d: "isMetaDescriptionLine (js ''Meta Description: Part one.'')"
    by (simp add: js_eval seo_eval)
  have conts: "\<forall>l\<in>set [js ''continued sentence.'']. \<not> isFieldLine l"
    by (simp add: js_eval seo_eval)
  have post: "[js ''Primary Keywords: a, b''] = [] \<or>
      (isFieldLine (hd [js ''Primary Keywords: a, b''])
       \<and> (\<forall>l\<in>set [js ''Primary Keywords: a, b'']. \<not> isMetaDescriptionLine l))"
    by (simp add: js_eval seo_eval)
  have v: "fieldValue metaDescriptionPattern (js ''Meta Description: Part one.'') = js ''Part one.''"
    by (simp add: js_eval seo_eval)
  have j: "join (js '' '') (js ''Part one.'' # map trim [js ''continued sentence.''])
      = js ''Part one. continued sentence.''"
    by (simp add: js_eval)
  have ne: "js ''Part one.'' \<noteq> []" by (simp add: js_def)
  from metaDescription_multi_line [OF docD_seo pre d conts post]
  have "metaDescription (classify docD) = Some (js ''Part one. continued sentence.'')"
    and "10 \<notin> set (js ''Part one. continued sentence.'')"
    unfolding v j using ne by auto
  with docD_seo d conts post v show ?thesis by simp
qed

subsection \<open>Repeated field lines\<close>

text \<open>
  Claim C10. In the SEO block the value of slug, metaTitle and keywords is the one of the
  last line that matches the field's pattern: each later match overwrites the earlier
  value. A second Meta Description line appends its value to the collected description
  lines, after the value of the first, and the description is assembled from all of them.
\<close>

theorem seo_fields_last_match:
  "slug (classify rawText) =
     map_option (fieldValue slugPattern) (find isSlugLine (rev (seoBlock rawText)))
   \<and> metaTitle (classify rawText) =
     map_option (fieldValue metaTitlePattern) (find isMetaTitleLine (rev (seoBlock rawText)))
   \<and> keywordsMeta (classify rawText) =
     map_option (fieldValue keywordsPattern) (find isKeywordsLine (rev (seoBlock rawText)))
   \<and> (\<forall>pre d1 mid d2 post.
        seoBlock rawText = pre @ d1 # mid @ d2 # post
        \<and> isMetaDescriptionLine d1 \<and> isMetaDescriptionLine d2 \<longrightarrow>
        (\<exists>a b c. descriptionLines (classify rawText) =
            a @ fieldValue metaDescriptionPattern d1 # b
              @ fieldValue metaDescriptionPattern d2 # c)
        \<and> metaDescription (classify rawText) =
            Some (trim (join (js '' '') (descriptionLines (classify rawText)))))"
proof -
  have "(\<exists>a b c. descriptionLines (classify rawText) =
            a @ fieldValue metaDescriptionPattern d1 # b
              @ fieldValue metaDescriptionPattern d2 # c)
        \<and> metaDescription (classify rawText) =
            Some (trim (join (js '' '') (descriptionLines (classify rawText))))"
    if b: "seoBlock rawText = pre @ d1 # mid @ d2 # post"
      and d: "isMetaDescriptionLine d1" "isMetaDescriptionLine d2"
    for pre d1 mid d2 post
  proof -
    from seoLoop_two_descriptions [OF d, of "foldl topStep initial (preSeoLines rawText)" pre mid post]
    obtain a b' c where dl: "descriptionLines (classify rawText) =
        a @ fieldValue metaDescriptionPattern d1 # b' @ fieldValue metaDescriptionPattern d2 # c"
      unfolding classify_descriptionLines b by blast
    then have "descriptionLines (classify rawText) \<noteq> []" by simp
    then have "metaDescription (classify rawText) =
        Some (trim (join (js '' '') (descriptionLines (classify rawText))))"
      by (simp add: classify_metaDescription)
    with dl show ?thesis by blast
  qed
  then show ?thesis
    by (simp only: classify_slug classify_metaTitle classify_keywords) blast
qed

theorem seo_fields_last_match_witness:
  "filter isSlugLine (seoBlock docE) = map js [''Slug: first-slug'', ''Slug: second-slug'']
   \<and> slug (classify docE) = Some (js ''second-slug'')
   \<and> filter isMetaTitleLine (seoBlock docE) = map js [''Meta Title: First'', ''Meta Title: Second'']
   \<and> metaTitle (classify docE) = Some (js ''Second'')
   \<and> filter isKeywordsLine (seoBlock docE) =
        map js [''Primary Keywords: k1'', ''Primary Keywords: k2'']
   \<and> keywordsMeta (classify docE) = Some (js ''k2'')
   \<and> filter isMetaDescriptionLine (seoBlock docE) =
        map js [''Meta Description: A'', ''Meta Description: B'']
   \<and> descriptionLines (classify docE) = [js ''A'', js ''B'']
   \<and> metaDescription (classify docE) = Some (js ''A B'')"
proof -
  have f: "filter isSlugLine (seoBlock docE) = map js [''Slug: first-slug'', ''Slug: second-slug'']"
    "filter isMetaTitleLine (seoBlock docE) = map js [''Meta Title: First'', ''Meta Title: Second'']"
    "filter isKeywordsLine (seoBlock docE) =
        map js [''Primary Keywords: k1'', ''Primary Keywords: k2'']"
    "filter isMetaDescriptionLine (seoBlock docE) =
        map js [''Meta Description: A'', ''Meta Description: B'']"
    unfolding docE_seo by (simp_all add: js_eval seo_eval)
  have l: "map_option (fieldValue slugPattern) (find isSlugLine (rev (seoBlock docE)))
      = Some (js ''second-slug'')"
    "map_option (fieldValue metaTitlePattern) (find isMetaTitleLine (rev (seoBlock docE)))
      = Some (js ''Second'')"
    "map_option (fieldValue keywordsPattern) (find isKeywordsLine (rev (seoBlock docE)))
      = Some (js ''k2'')"
    unfolding docE_seo by (simp_all add: js_eval seo_eval)
  have d: "descriptionLines (classify docE) = [js ''A'', js ''B'']"
    "metaDescription (classify docE) = Some (js ''A B'')"
    by (simp_all add: docE_classify)
  from seo_fields_last_match [of docE] f d show ?thesis unfolding l by simp
qed

subsection \<open>The final validation\<close>

text \<open>
  Claim C6. \<open>extractData\<close> returns a record only when title, slug and metaTitle are all
  present and non-empty. When one is absent (or empty) it fails with the error of the
  first missing field in the order title, slug, metaTitle; the three messages differ and
  each ends with the path of the file. The author and the keywords play no part: with the
  three fields present the extraction succeeds, whatever they are.
\<close>

theorem extractData_required_fields:
  "(\<forall>m c. extractData rawText filePath = Inr (m, c) \<longrightarrow>
      (\<exists>t s mt. title m = Some t \<and> t \<noteq> [] \<and> slug m = Some s \<and> s \<noteq> []
         \<and> metaTitle m = Some mt \<and> mt \<noteq> []))
   \<and> (falsy (title (classify rawText)) \<longrightarrow>
        extractData rawText filePath = Inl (Error (titleMessage filePath)))
   \<and> (\<not> falsy (title (classify rawText)) \<and> falsy (slug (classify rawText)) \<longrightarrow>
        extractData rawText filePath = Inl (Error (slugMessage filePath)))
   \<and> (\<not> falsy (title (classify rawText)) \<and> \<not> falsy (slug (classify rawText))
        \<and> falsy (metaTitle (classify rawText)) \<longrightarrow>
        extractData rawText filePath = Inl (Error (metaTitleMessage filePath)))
   \<and> (\<not> falsy (title (classify rawText)) \<and> \<not> falsy (slug (classify rawText))
        \<and> \<not> falsy (metaTitle (classify rawText)) \<longrightarrow>
        (\<exists>m c. extractData rawText filePath = Inr (m, c)
           \<and> author m = author (classify rawText)
           \<and> keywordsMeta m = keywordsMeta (classify rawText)))
   \<and> distinct [titleMessage filePath, slugMessage filePath, metaTitleMessage filePath]
   \<and> (\<exists>p. titleMessage filePath = p @ filePath)
   \<and> (\<exists>p. slugMessage filePath = p @ filePath)
   \<and> (\<exists>p. metaTitleMessage filePath = p @ filePath)"
proof -
  have ok: "\<exists>t s mt. title m = Some t \<and> t \<noteq> [] \<and> slug m = Some s \<and> s \<noteq> []
         \<and> metaTitle m = Some mt \<and> mt \<noteq> []"
    if "extractData rawText filePath = Inr (m, c)" for m c
    using that
    by (auto simp: extractData_def Let_def falsy_def metadata.truncate_def split: if_splits)
  have fail: "falsy (title (classify rawText)) \<longrightarrow>
        extractData rawText filePath = Inl (Error (titleMessage filePath))"
    "\<not> falsy (title (classify rawText)) \<and> falsy (slug (classify rawText)) \<longrightarrow>
        extractData rawText filePath = Inl (Error (slugMessage filePath))"
    "\<not> falsy (title (classify rawText)) \<and> \<not> falsy (slug (classify rawText))
        \<and> falsy (metaTitle (classify rawText)) \<longrightarrow>
        extractData rawText filePath = Inl (Error (metaTitleMessage filePath))"
    by (simp_all add: extractData_def Let_def titleMessage_def slugMessage_def
        metaTitleMessage_def)
  have succ: "\<not> falsy (title (classify rawText)) \<and> \<not> falsy (slug (classify rawText))
        \<and> \<not> falsy (metaTitle (classify rawText)) \<longrightarrow>
        (\<exists>m c. extractData rawText filePath = Inr (m, c)
           \<and> author m = author (classify rawText)
           \<and> keywordsMeta m = keywordsMeta (classify rawText))"
    by (simp add: extractData_def Let_def metadata.truncate_def)
  have names: "\<exists>p. titleMessage filePath = p @ filePath"
    "\<exists>p. slugMessage filePath = p @ filePath"
    "\<exists>p. metaTitleMessage filePath = p @ filePath"
    by (simp_all add: titleMessage_def slugMessage_def metaTitleMessage_def)
  have dist: "distinct [titleMessage filePath, slugMessage filePath, metaTitleMessage filePath]"
    using messages_distinct [of filePath] by simp
  from ok fail succ names dist show ?thesis by blast
qed

theorem extractData_required_fields_witness:
  "falsy (title (classify docB))
   \<and> extractData docB (js ''doc/b.docx'') = Inl (Error (titleMessage (js ''doc/b.docx'')))
   \<and> \<not> falsy (title (classify docF)) \<and> falsy (slug (classify docF))
   \<and> extractData docF (js ''doc/f.docx'') = Inl (Error (slugMessage (js ''doc/f.docx'')))
   \<and> \<not> falsy (title (classify docG)) \<and> \<not> falsy (slug (classify docG))
   \<and> falsy (metaTitle (classify docG))
   \<and> extractData docG (js ''doc/g.docx'') = Inl (Error (metaTitleMessage (js ''doc/g.docx'')))
   \<and> \<not> falsy (title (classify docH)) \<and> \<not> falsy (slug (classify docH))
   \<and> \<not> falsy (metaTitle (classify docH))
   \<and> author (classify docH) = None \<and> keywordsMeta (classify docH) = None
   \<and> (\<exists>m c. extractData docH (js ''doc/h.docx'') = Inr (m, c)
         \<and> author m = None \<and> keywordsMeta m = None
         \<and> title m = Some (js ''How to Get a Medical Certificate Online'')
         \<and> slug m = Some (js ''medical-certificate'')
         \<and> metaTitle m = Some (js ''Certificates Online''))"
proof -
  have b: "falsy (title (classify docB))"
    by (simp add: docB_classify falsy_def initial_def)
  have f: "\<not> falsy (title (classify docF))" "falsy (slug (classify docF))"
    by (simp_all add: docF_classify falsy_def initial_def js_def)
  have g: "\<not> falsy (title (classify docG))" "\<not> falsy (slug (classify docG))"
    "falsy (metaTitle (classify docG))"
    by (simp_all add: docG_classify falsy_def initial_def js_def)
  have h: "\<not> falsy (title (classify docH))" "\<not> falsy (slug (classify docH))"
    "\<not> falsy (metaTitle (classify docH))"
    "author (classify docH) = None" "keywordsMeta (classify docH) = None"
    by (simp_all add: docH_classify falsy_def initial_def js_def)
  have t: "title (classify docH) = Some (js ''How to Get a Medical Certificate Online'')"
    "slug (classify docH) = Some (js ''medical-certificate'')"
    "metaTitle (classify docH) = Some (js ''Certificates Online'')"
    by (simp_all add: docH_classify initial_def)
  have e: "\<exists>m c. extractData docH (js ''doc/h.docx'') = Inr (m, c)
         \<and> author m = None \<and> keywordsMeta m = None
         \<and> title m = Some (js ''How to Get a Medical Certificate Online'')
         \<and> slug m = Some (js ''medical-certificate'')
         \<and> metaTitle m = Some (js ''Certificates Online'')"
    using extractData_required_fields [of docH "js ''doc/h.docx''"] h t
    by (auto simp: extractData_def Let_def metadata.truncate_def)
  from extractData_required_fields [of docB "js ''doc/b.docx''"]
    extractData_required_fields [of docF "js ''doc/f.docx''"]
    extractData_required_fields [of docG "js ''doc/g.docx''"]
    b f g h e
  show ?thesis by simp
qed

subsection \<open>Strings in the HTML\<close>

lemmas html_eval = indexOf_def lastIndexOf_def lastIndexOfAll_def substring_def startsWith_def
  js_def trim_def isWhiteSpace_def

lemma html1_start: "contentStart html1 (js ''My Title'') = Inr 17"
  by (simp add: contentStart_def html1_def html_eval Let_def)

lemma html1_last: "lastIndexOfAll html1 (js ''Meta Title:'') = 37"
  by (simp add: html1_def html_eval)

lemma html1_open: "lastIndexOf html1 (js ''<'') 37 = 34"
  by (simp add: html1_def html_eval)

lemma html1_sub: "trim (substring html1 17 34) = js ''<p>Body text.</p>''"
  by (simp add: html1_def html_eval)

lemma html1_loop: "markerLoop html1 17 endMarkers = js ''<p>Body text.</p>''"
  by (simp add: endMarkers_def html1_def html_eval)

lemma startsWith_drop_occurs:
  assumes "startsWith (drop i s) t"
  shows "occursIn t s"
proof -
  from assms have "drop i s = t @ drop (length t) (drop i s)"
    by (metis append_take_drop_id startsWith_def)
  then have "s = take i s @ t @ drop (length t) (drop i s)"
    by (metis append_take_drop_id)
  then show ?thesis unfolding occursIn_def by blast
qed

lemma occurs_startsWith_drop:
  assumes "occursIn t s"
  shows "\<exists>i\<le>length s. startsWith (drop i s) t"
proof -
  from assms obtain pre post where "s = pre @ t @ post" by (auto simp: occursIn_def)
  then have "startsWith (drop (length pre) s) t" "length pre \<le> length s"
    by (simp_all add: startsWith_def)
  then show ?thesis by blast
qed

lemma indexOf_none: "(indexOf s t 0 = - 1) = (\<not> occursIn t s)"
proof
  assume "indexOf s t 0 = - 1"
  then have e: "filter (\<lambda>i. startsWith (drop i s) t) [0..<Suc (length s)] = []"
    by (simp add: indexOf_def del: upt_Suc split: list.splits)
  show "\<not> occursIn t s"
  proof
    assume "occursIn t s"
    then obtain i where "i \<le> length s" "startsWith (drop i s) t"
      using occurs_startsWith_drop by blast
    then have "i \<in> set [0..<Suc (length s)] \<and> startsWith (drop i s) t"
      by (simp only: set_upt atLeastLessThan_iff less_Suc_eq_le) simp
    then have "i \<in> set (filter (\<lambda>i. startsWith (drop i s) t) [0..<Suc (length s)])"
      by (simp only: set_filter mem_Collect_eq)
    with e show False by (simp only: set_simps empty_iff)
  qed
next
  assume n: "\<not> occursIn t s"
  have "\<not> startsWith (drop i s) t" for i
    using n startsWith_drop_occurs by blast
  then have "filter (\<lambda>i. startsWith (drop i s) t) [0..<Suc (length s)] = []"
    by (simp add: filter_empty_conv del: upt_Suc)
  then show "indexOf s t 0 = - 1" by (simp add: indexOf_def del: upt_Suc)
qed

subsection \<open>The HTML body\<close>

text \<open>
  Claim C4. Given the HTML "<h1>My Title</h1><p>Body text.</p><p>Meta Title: X</p>" and
  the title "My Title", the body resolution returns exactly "<p>Body text.</p>": the body
  starts at 17, right after the closing tag of the heading that holds the title, and ends
  at 34, where the paragraph that holds the end marker "Meta Title:" (found at 37) opens.
\<close>

theorem resolveBody_example:
  "html1 = js ''<h1>My Title</h1><p>Body text.</p><p>Meta Title: X</p>''
   \<and> resolveBody html1 (js ''My Title'') = Inr (js ''<p>Body text.</p>'')
   \<and> contentStart html1 (js ''My Title'') = Inr 17
   \<and> take 17 html1 = js ''<h1>My Title</h1>''
   \<and> lastIndexOfAll html1 (js ''Meta Title:'') = 37
   \<and> lastIndexOf html1 (js ''<'') 37 = 34
   \<and> drop 34 html1 = js ''<p>Meta Title: X</p>''
   \<and> trim (substring html1 17 34) = js ''<p>Body text.</p>''"
proof -
  have "resolveBody html1 (js ''My Title'') = Inr (js ''<p>Body text.</p>'')"
    using html1_start html1_loop by (simp add: resolveBody_def js_def)
  moreover have "take 17 html1 = js ''<h1>My Title</h1>''"
    and "drop 34 html1 = js ''<p>Meta Title: X</p>''"
    by (simp_all add: html1_def js_def)
  ultimately show ?thesis
    using html1_start html1_last html1_open html1_sub by (simp add: html1_def)
qed

subsection \<open>A title that does not occur\<close>

text \<open>
  Claim C7. For every HTML string in which the title does not occur as a literal
  substring, the body resolution fails with the thrown error "Could not find the start of
  the content after the title.": it returns no string, empty or not, and no other error.
\<close>

theorem resolveBody_title_absent:
  assumes "\<not> occursIn title' html"
  shows "resolveBody html title'
           = Inl (Error (js ''Could not find the start of the content after the title.''))"
  using assms by (simp add: resolveBody_def contentStart_def indexOf_none [symmetric])

theorem resolveBody_title_absent_witness:
  "\<not> occursIn (js ''My Title'') html2
   \<and> resolveBody html2 (js ''My Title'')
       = Inl (Error (js ''Could not find the start of the content after the title.''))"
proof -
  have "indexOf html2 (js ''My Title'') 0 = - 1"
    by (simp add: html2_def html_eval)
  then have h: "\<not> occursIn (js ''My Title'') html2" by (simp add: indexOf_none)
  from resolveBody_title_absent [OF h] h show ?thesis by simp
qed

subsection \<open>The post-processor is not idempotent\<close>

lemmas post_eval = js_def canonicalize_def startsWith_def linkMatch_def lookbehindA_def
  ctaMatch_def anchor_def ctaPrefix_def ctaPrefixHtml_def Let_def

lemma wrap1: \<open>wrapPhrases internalLinks htmlC =
    js ''<p><a href="https://medicly.com.au/certificates">certificates</a></p>''\<close>
  by (simp add: wrapPhrases_def internalLinks_def htmlC_def post_eval)

lemma post1: "postProcess internalLinks htmlC = htmlC1"
  unfolding postProcess_def wrap1 by (simp add: htmlC1_def post_eval)

lemma wrap2: \<open>wrapPhrases internalLinks htmlC1 =
    js ''<p><a href="https://medicly.com.au/<a href="https://medicly.com.au/certificates">certificates</a>" class="blog_cta">certificates</a></p>''\<close>
  by (simp add: wrapPhrases_def internalLinks_def htmlC1_def post_eval)

lemma post2: "postProcess internalLinks htmlC1 = htmlC2"
  unfolding postProcess_def wrap2 by (simp add: htmlC2_def post_eval)

lemma postHtml1: "postProcessHtml htmlC = htmlH1"
  by (simp add: postProcessHtml_def internalLinksHtml_def htmlC_def htmlH1_def post_eval)

lemma postHtml2: "postProcessHtml htmlH1 = htmlH2"
  by (simp add: postProcessHtml_def internalLinksHtml_def htmlH1_def htmlH2_def post_eval)

text \<open>
  Claim C5 fails on the code. The URL of the rule for "certificates" contains the phrase.
  The first run turns the paragraph "certificates" into an anchor; in the second run the
  phrase inside the \<open>href\<close> of that anchor is neither right after an opening anchor tag
  nor right before a closing one, so it is wrapped again: the second run changes the
  result of the first. Both post-processors do so.
\<close>

theorem postProcess_not_idempotent:
  "postProcess internalLinks htmlC = htmlC1
   \<and> postProcess internalLinks (postProcess internalLinks htmlC) = htmlC2
   \<and> postProcess internalLinks (postProcess internalLinks htmlC)
       \<noteq> postProcess internalLinks htmlC
   \<and> postProcessHtml htmlC = htmlH1
   \<and> postProcessHtml (postProcessHtml htmlC) = htmlH2
   \<and> postProcessHtml (postProcessHtml htmlC) \<noteq> postProcessHtml htmlC"
proof -
  have "htmlC2 \<noteq> htmlC1" by (simp add: htmlC1_def htmlC2_def js_def)
  moreover have "htmlH2 \<noteq> htmlH1" by (simp add: htmlH1_def htmlH2_def js_def)
  ultimately show ?thesis by (simp add: post1 post2 postHtml1 postHtml2)
qed

subsection \<open>A duplicate slug\<close>

text \<open>
  Claim C9. When the slug of a processed document is already in the table, the insert
  changes nothing and returns no identifier; the loop reports the document as skipped
  (already existing), logs no error, leaves the file in the inbound directory, moves
  nothing to the sent directory and goes on with the remaining documents.
\<close>

theorem duplicate_slug_skipped:
  assumes "processDocxFile file = Inr p"
      and "slug p = Some s"
      and "\<exists>(i, q)\<in>set (blogs (db w)). slug q = Some s"
  shows "insertPost (db w) p = (db w, None)
       \<and> processFile processDocxFile w file
           = w\<lparr>events := events w @ [Processing file, Skipped (Some s)]\<rparr>
       \<and> db (processFile processDocxFile w file) = db w
       \<and> docFiles (processFile processDocxFile w file) = docFiles w
       \<and> sentFiles (processFile processDocxFile w file) = sentFiles w
       \<and> mainLoop processDocxFile w (file # rest)
           = mainLoop processDocxFile
               (w\<lparr>events := events w @ [Processing file, Skipped (Some s)]\<rparr>) rest"
proof -
  from assms(2,3) have q: "insertQuery (db w) p = (db w, [])"
    by (auto simp: insertQuery_def list_ex_iff)
  then have i: "insertPost (db w) p = (db w, None)"
    by (simp add: insertPost_def)
  have f: "processFile processDocxFile w file
      = w\<lparr>events := events w @ [Processing file, Skipped (Some s)]\<rparr>"
    using assms(1,2) i by (simp add: processFile_def Let_def)
  from i f show ?thesis by (simp add: mainLoop_def)
qed

theorem duplicate_slug_skipped_witness:
  "processAB (js ''a.docx'') = Inr postA
   \<and> slug postA = Some (js ''medical-certificate'')
   \<and> (\<exists>(i, q)\<in>set (blogs (db worldA)). slug q = Some (js ''medical-certificate''))
   \<and> insertPost (db worldA) postA = (db worldA, None)
   \<and> mainLoop processAB worldA [js ''a.docx'', js ''b.docx'']
       = \<lparr>db = \<lparr>blogs = [(1, postA), (2, postB)], nextId = 3\<rparr>,
          docFiles = [js ''a.docx''], sentFiles = [js ''b.docx''],
          events = [Processing (js ''a.docx''), Skipped (Some (js ''medical-certificate'')),
                    Processing (js ''b.docx''), Success (Some (js ''online-prescriptions'')) 2,
                    Moved (js ''b.docx'')]\<rparr>"
proof -
  have a: "processAB (js ''a.docx'') = Inr postA" by (simp add: processAB_def)
  have s: "slug postA = Some (js ''medical-certificate'')" by (simp add: postA_def)
  have e: "\<exists>(i, q)\<in>set (blogs (db worldA)). slug q = Some (js ''medical-certificate'')"
    by (simp add: worldA_def postA_def)
  have b: "processFile processAB
      (worldA\<lparr>events := events worldA
         @ [Processing (js ''a.docx''), Skipped (Some (js ''medical-certificate''))]\<rparr>)
      (js ''b.docx'')
    = \<lparr>db = \<lparr>blogs = [(1, postA), (2, postB)], nextId = 3\<rparr>,
          docFiles = [js ''a.docx''], sentFiles = [js ''b.docx''],
          events = [Processing (js ''a.docx''), Skipped (Some (js ''medical-certificate'')),
                    Processing (js ''b.docx''), Success (Some (js ''online-prescriptions'')) 2,
                    Moved (js ''b.docx'')]\<rparr>"
    by (simp add: processFile_def processAB_def worldA_def insertPost_def insertQuery_def
        postA_def postB_def js_def Let_def)
  from duplicate_slug_skipped [of processAB "js ''a.docx''" postA "js ''medical-certificate''"
      worldA "[js ''b.docx'']"] a s e b
  show ?thesis by (simp add: mainLoop_def)
qed

end
